theory Spec2Isabelle
  imports Complex_Main "HOL-Library.Sublist"
begin

section \<open>Data model\<close>

text \<open>
  The collector works on the decoded JSON payload of the activity endpoint: every record
  is a Python dict whose values are JSON values. A JSON number without fraction is a
  Python int; a number with a fraction is a Python float, given here by its exact
  rational value (NaN, the infinities and the negative zero are not represented).
  A dict is an association list; \<open>get\<close> is \<open>dict.get\<close>.
\<close>

datatype json =
    JNull
  | JBool bool
  | JInt int
  | JFloat rat
  | JStr string
  | JArr "json list"
  | JObj "(string \<times> json) list"

type_synonym activity = "(string \<times> json) list"

datatype error = TypeError | ValueError | OverflowError | OSError

text \<open>\<open>d.get(k)\<close>: the value, or \<open>None\<close> when the key is absent.\<close>

definition get :: "activity \<Rightarrow> string \<Rightarrow> json" where
  "get d k = (case map_of d k of None \<Rightarrow> JNull | Some v \<Rightarrow> v)"

text \<open>\<open>d.get(k, default)\<close>.\<close>

definition get_default :: "activity \<Rightarrow> string \<Rightarrow> json \<Rightarrow> json" where
  "get_default d k dflt = (case map_of d k of None \<Rightarrow> dflt | Some v \<Rightarrow> v)"

text \<open>Python truthiness, as tested by \<open>if v:\<close>.\<close>

fun truthy :: "json \<Rightarrow> bool" where
  "truthy JNull = False"
| "truthy (JBool b) = b"
| "truthy (JInt n) = (n \<noteq> 0)"
| "truthy (JFloat r) = (r \<noteq> 0)"
| "truthy (JStr s) = (s \<noteq> [])"
| "truthy (JArr xs) = (xs \<noteq> [])"
| "truthy (JObj kvs) = (kvs \<noteq> [])"

section \<open>Fetcher\<close>

text \<open>
  One page request either fails with a \<open>RequestException\<close> (connection error, timeout,
  bad status, undecodable body) or yields the decoded list of records. The remote
  endpoint is a function from the offset of the request to its response: within one
  run every offset is requested at most once.
\<close>

datatype response = RequestError | Data "activity list"

type_synonym source = "nat \<Rightarrow> response"

text \<open>
  The \<open>while\<close> loop of \<open>get_all_user_activity\<close>, with \<open>limit = 500\<close>. The state is
  \<open>all_activities\<close>, \<open>offset\<close> and the log of the offsets requested so far.
\<close>

function fetch_loop :: "source \<Rightarrow> int \<Rightarrow> activity list \<Rightarrow> nat \<Rightarrow> nat list
    \<Rightarrow> activity list \<times> nat list" where
  "fetch_loop src max_records all_activities offset reqs =
     (if int (length all_activities) < max_records \<and> offset \<le> 10000 then
        (case src offset of
           RequestError \<Rightarrow> (all_activities, reqs @ [offset])
         | Data data \<Rightarrow>
             if data = [] then (all_activities, reqs @ [offset])
             else if length data < 500 then (all_activities @ data, reqs @ [offset])
             else fetch_loop src max_records (all_activities @ data) (offset + 500)
                    (reqs @ [offset]))
      else (all_activities, reqs))"
  by pat_completeness auto
termination
  by (relation "measure (\<lambda>(src, m, a, offset, reqs). 10500 - offset)") auto

declare fetch_loop.simps [simp del]

definition get_all_user_activity :: "source \<Rightarrow> int \<Rightarrow> activity list \<times> nat list" where
  "get_all_user_activity src max_records = fetch_loop src max_records [] 0 []"

text \<open>The number of requests the ceiling still allows from a given offset.\<close>

definition pages_left :: "nat \<Rightarrow> nat" where
  "pages_left off = (10500 - off) div 500"

text \<open>A full page of 500 records, for concrete runs.\<close>

definition full_page :: "activity list" where
  "full_page = replicate 500 [(''type'', JStr ''TRADE'')]"

section \<open>Deduplicator\<close>

text \<open>
  The keys of a Python set or dict are compared with \<open>==\<close> and must be hashable.
  \<open>None\<close>, booleans, numbers and strings are hashable, and \<open>True == 1 == 1.0\<close>;
  lists and dicts are not, and using one as a key raises \<open>TypeError\<close>. \<open>hkey_of\<close>
  maps a hashable value to a normal form on which \<open>==\<close> is equality.
\<close>

datatype hkey = KNone | KNum rat | KStr string

fun hkey_of :: "json \<Rightarrow> hkey option" where
  "hkey_of JNull = Some KNone"
| "hkey_of (JBool b) = Some (KNum (if b then 1 else 0))"
| "hkey_of (JInt n) = Some (KNum (of_int n))"
| "hkey_of (JFloat r) = Some (KNum r)"
| "hkey_of (JStr s) = Some (KStr s)"
| "hkey_of (JArr xs) = None"
| "hkey_of (JObj kvs) = None"

text \<open>
  The identity of a record in \<open>remove_duplicates\<close>: the transaction hash alone when it
  is truthy, otherwise a 4-tuple. A tuple never equals a scalar.
\<close>

datatype ukey = Single hkey | Tuple4 hkey hkey hkey hkey

text \<open>
  The third component of the tuple:
  \<^verbatim>\<open>activity.get('market', {}).get('slug') if isinstance(activity.get('market'), dict) else None\<close>
\<close>

definition nested_slug :: "activity \<Rightarrow> json" where
  "nested_slug a = (case get a ''market'' of JObj m \<Rightarrow> get m ''slug'' | _ \<Rightarrow> JNull)"

definition unique_key :: "activity \<Rightarrow> error + ukey" where
  "unique_key a =
     (let tx_hash = get a ''transactionHash'' in
      if truthy tx_hash then
        (case hkey_of tx_hash of None \<Rightarrow> Inl TypeError | Some h \<Rightarrow> Inr (Single h))
      else
        (case (hkey_of (get a ''timestamp''), hkey_of (get a ''type''),
               hkey_of (nested_slug a), hkey_of (get a ''side'')) of
           (Some t, Some ty, Some m, Some s) \<Rightarrow> Inr (Tuple4 t ty m s)
         | _ \<Rightarrow> Inl TypeError))"

text \<open>
  The \<open>for\<close> loop of \<open>remove_duplicates\<close>; the state is \<open>seen\<close> and
  \<open>unique_activities\<close>. The counter of duplicates only feeds a printed message.
\<close>

fun dedup_loop :: "ukey set \<Rightarrow> activity list \<Rightarrow> activity list \<Rightarrow> error + activity list" where
  "dedup_loop seen unique_activities [] = Inr unique_activities"
| "dedup_loop seen unique_activities (a # as) =
     (case unique_key a of
        Inl e \<Rightarrow> Inl e
      | Inr k \<Rightarrow>
          if k \<notin> seen then dedup_loop (insert k seen) (unique_activities @ [a]) as
          else dedup_loop seen unique_activities as)"

definition remove_duplicates :: "activity list \<Rightarrow> error + activity list" where
  "remove_duplicates activities = dedup_loop {} [] activities"

text \<open>
  The positions of a batch that hold the first occurrence of their identity: no earlier
  position has the same identity. This is the specification of the Deduplicator.
\<close>

definition first_occurrences :: "activity list \<Rightarrow> nat set" where
  "first_occurrences xs =
     {i. i < length xs \<and> (\<forall>j<i. unique_key (xs ! j) \<noteq> unique_key (xs ! i))}"

text \<open>The same, for the rest of a batch when some identities have been seen already.\<close>

definition fresh :: "ukey set \<Rightarrow> activity list \<Rightarrow> nat set" where
  "fresh seen xs =
     {i. i < length xs \<and> unique_key (xs ! i) \<notin> Inr ` seen
         \<and> (\<forall>j<i. unique_key (xs ! j) \<noteq> unique_key (xs ! i))}"

text \<open>Two structural records of one second that differ only in their market.\<close>

definition split_a :: activity where
  "split_a = [(''timestamp'', JInt 1700000000), (''type'', JStr ''SPLIT''),
              (''slug'', JStr ''market-a'')]"

definition split_b :: activity where
  "split_b = [(''timestamp'', JInt 1700000000), (''type'', JStr ''SPLIT''),
              (''slug'', JStr ''market-b'')]"

text \<open>Three trades, the third a repetition of the first transaction.\<close>

definition trade_1 :: activity where
  "trade_1 = [(''transactionHash'', JStr ''0xaa''), (''timestamp'', JInt 1700000000),
              (''type'', JStr ''TRADE''), (''slug'', JStr ''market-a''), (''side'', JStr ''BUY'')]"

definition trade_2 :: activity where
  "trade_2 = [(''transactionHash'', JStr ''0xbb''), (''timestamp'', JInt 1700000060),
              (''type'', JStr ''TRADE''), (''slug'', JStr ''market-b''), (''side'', JStr ''SELL'')]"

definition trade_1_again :: activity where
  "trade_1_again = [(''transactionHash'', JStr ''0xaa''), (''timestamp'', JInt 1700000000),
              (''type'', JStr ''TRADE''), (''slug'', JStr ''market-a''), (''side'', JStr ''SELL'')]"

section \<open>Grouper\<close>

text \<open>
  The dict \<open>markets\<close> keeps its keys in insertion order: an association list whose
  keys are compared as Python compares dict keys. \<open>append_market\<close> is
  \<open>markets[slug].append(activity)\<close> on a \<open>defaultdict(list)\<close>.
\<close>

type_synonym markets = "(json \<times> activity list) list"

fun append_market :: "json \<Rightarrow> activity \<Rightarrow> markets \<Rightarrow> markets" where
  "append_market slug a [] = [(slug, [a])]"
| "append_market slug a ((k, g) # ms) =
     (if hkey_of k = hkey_of slug then (k, g @ [a]) # ms
      else (k, g) # append_market slug a ms)"

fun group_loop :: "markets \<Rightarrow> activity list \<Rightarrow> error + markets" where
  "group_loop ms [] = Inr ms"
| "group_loop ms (a # as) =
     (let slug = get a ''slug'' in
      if truthy slug then
        (case hkey_of slug of
           None \<Rightarrow> Inl TypeError
         | Some h \<Rightarrow> group_loop (append_market slug a ms) as)
      else group_loop ms as)"

definition group_by_market :: "activity list \<Rightarrow> error + markets" where
  "group_by_market activities = group_loop [] activities"

text \<open>Whether a record belongs to the group of a key.\<close>

definition in_market :: "json \<Rightarrow> activity \<Rightarrow> bool" where
  "in_market k a \<longleftrightarrow> truthy (get a ''slug'') \<and> hkey_of (get a ''slug'') = hkey_of k"

text \<open>The records stored under a key, as the dict lookup finds them.\<close>

fun market_of :: "json \<Rightarrow> markets \<Rightarrow> activity list" where
  "market_of k0 [] = []"
| "market_of k0 ((k, g) # ms) = (if hkey_of k = hkey_of k0 then g else market_of k0 ms)"

text \<open>The keys of the dict in insertion order, in the normal form of their comparison.\<close>

definition market_keys :: "markets \<Rightarrow> hkey option list" where
  "market_keys ms = map (\<lambda>kg. hkey_of (fst kg)) ms"

text \<open>The elements of a list in the order of their first occurrence.\<close>

definition first_seen :: "'a list \<Rightarrow> 'a list" where
  "first_seen ks = rev (remdups (rev ks))"

text \<open>The group keys a batch presents to the Grouper, record by record.\<close>

definition slug_keys :: "activity list \<Rightarrow> hkey option list" where
  "slug_keys xs = map (\<lambda>a. hkey_of (get a ''slug''))
                      (filter (\<lambda>a. truthy (get a ''slug'')) xs)"

text \<open>A record without group key.\<close>

definition reward :: activity where
  "reward = [(''timestamp'', JInt 1700000100), (''type'', JStr ''REWARD''), (''slug'', JStr '''')]"

text \<open>Every group is non-empty and stored under the \<open>slug\<close> of its first record.\<close>

definition well_keyed :: "markets \<Rightarrow> bool" where
  "well_keyed ms \<longleftrightarrow> (\<forall>(k, g)\<in>set ms. g \<noteq> [] \<and> k = get (hd g) ''slug'')"


section \<open>Persistence Gate\<close>

subsection \<open>Python conversions\<close>

text \<open>
  \<open>int(s)\<close> for a string: surrounding ASCII whitespace is stripped, then an optional
  sign and decimal digits follow, with single underscores allowed between digits; more
  than 4300 digits are refused. Anything else raises \<open>ValueError\<close>. Digits and spaces
  beyond ASCII are not modelled.
\<close>

definition is_space :: "char \<Rightarrow> bool" where
  "is_space c \<longleftrightarrow> c \<in> set [CHR 0x09, CHR 0x0A, CHR 0x0B, CHR 0x0C, CHR 0x0D, CHR '' '']"

definition is_digit :: "char \<Rightarrow> bool" where
  "is_digit c \<longleftrightarrow> c \<in> set ''0123456789''"

definition digit_val :: "char \<Rightarrow> nat" where
  "digit_val c = of_char c - 48"

definition strip :: "string \<Rightarrow> string" where
  "strip s = rev (dropWhile is_space (rev (dropWhile is_space s)))"

fun parse_digits :: "nat \<Rightarrow> string \<Rightarrow> nat option" where
  "parse_digits acc [] = Some acc"
| "parse_digits acc (c # cs) =
     (if is_digit c then parse_digits (10 * acc + digit_val c) cs
      else if c = CHR ''_'' then
        (case cs of
           [] \<Rightarrow> None
         | d # ds \<Rightarrow> if is_digit d then parse_digits (10 * acc + digit_val d) ds else None)
      else None)"

definition parse_nat :: "string \<Rightarrow> nat option" where
  "parse_nat s =
     (case s of
        [] \<Rightarrow> None
      | c # cs \<Rightarrow>
          if is_digit c \<and> length (filter is_digit s) \<le> 4300
          then parse_digits (digit_val c) cs else None)"

definition int_of_string :: "string \<Rightarrow> int option" where
  "int_of_string s =
     (case strip s of
        [] \<Rightarrow> None
      | c # cs \<Rightarrow>
          if c = CHR ''-'' then map_option (\<lambda>n. - int n) (parse_nat cs)
          else if c = CHR ''+'' then map_option int (parse_nat cs)
          else map_option int (parse_nat (c # cs)))"

text \<open>\<open>int(v)\<close>: a float is truncated towards zero; \<open>None\<close>, lists and dicts raise.\<close>

fun py_int :: "json \<Rightarrow> error + int" where
  "py_int JNull = Inl TypeError"
| "py_int (JBool b) = Inr (if b then 1 else 0)"
| "py_int (JInt n) = Inr n"
| "py_int (JFloat r) = Inr (if 0 \<le> r then \<lfloor>r\<rfloor> else \<lceil>r\<rceil>)"
| "py_int (JStr s) = (case int_of_string s of None \<Rightarrow> Inl ValueError | Some n \<Rightarrow> Inr n)"
| "py_int (JArr xs) = Inl TypeError"
| "py_int (JObj kvs) = Inl TypeError"

text \<open>Decimal digits of a natural number and of an integer, as \<open>str\<close> prints them.\<close>

definition digit_char :: "nat \<Rightarrow> char" where
  "digit_char n = ''0123456789'' ! n"

fun show_nat :: "nat \<Rightarrow> string" where
  "show_nat n = (if n < 10 then [digit_char n] else show_nat (n div 10) @ [digit_char (n mod 10)])"

declare show_nat.simps [simp del]

definition show_int :: "int \<Rightarrow> string" where
  "show_int n = (if n < 0 then CHR ''-'' # show_nat (nat (- n)) else show_nat (nat n))"

text \<open>
  Two library results are passed through by the collector and not computed here: the
  text \<open>str(v)\<close> of a float, a list or a dict, and
  \<^verbatim>\<open>datetime.fromtimestamp(n, tz=timezone.utc).strftime('%Y-%m-%d %H:%M:%S')\<close>,
  which raises when \<open>n\<close> is out of the range of the platform. They are parameters of
  the model.
\<close>

record pylib =
  str_other :: "json \<Rightarrow> string"
  utc_format :: "int \<Rightarrow> error + string"

text \<open>\<open>str(v)\<close>, also what an f-string inserts.\<close>

fun py_str :: "pylib \<Rightarrow> json \<Rightarrow> string" where
  "py_str lib JNull = ''None''"
| "py_str lib (JBool b) = (if b then ''True'' else ''False'')"
| "py_str lib (JInt n) = show_int n"
| "py_str lib (JStr s) = s"
| "py_str lib v = str_other lib v"

subsection \<open>The CSV writer\<close>

text \<open>
  \<open>csv.DictWriter\<close> with the default dialect: \<open>None\<close> becomes the empty field, any
  other value its \<open>str\<close>; a field holding a comma, a double quote, a carriage return or
  a line feed is enclosed in double quotes with its quotes doubled; fields are joined by
  commas and the line ends with CR LF.
\<close>

definition csv_cell :: "pylib \<Rightarrow> json \<Rightarrow> string" where
  "csv_cell lib v = (case v of JNull \<Rightarrow> [] | _ \<Rightarrow> py_str lib v)"

definition needs_quote :: "string \<Rightarrow> bool" where
  "needs_quote s \<longleftrightarrow> list_ex (\<lambda>c. c \<in> set [CHR '','', CHR 0x22, CHR 0x0D, CHR 0x0A]) s"

definition csv_field :: "string \<Rightarrow> string" where
  "csv_field s =
     (if needs_quote s
      then CHR 0x22 # concat (map (\<lambda>c. if c = CHR 0x22 then [c, c] else [c]) s) @ [CHR 0x22]
      else s)"

fun join_comma :: "string list \<Rightarrow> string" where
  "join_comma [] = []"
| "join_comma [s] = s"
| "join_comma (s # t # ss) = s @ CHR '','' # join_comma (t # ss)"

definition csv_line :: "string list \<Rightarrow> string" where
  "csv_line cells = join_comma (map csv_field cells) @ [CHR 0x0D, CHR 0x0A]"

definition fieldnames :: "string list" where
  "fieldnames =
     [''timestamp'', ''datetime'', ''type'', ''side'', ''proxyWallet'',
      ''conditionId'', ''asset'', ''outcomeIndex'', ''outcome'',
      ''size'', ''usdcSize'', ''price'', ''transactionHash'',
      ''title'', ''slug'', ''eventSlug'', ''icon'',
      ''name'', ''pseudonym'', ''bio'', ''profileImage'', ''profileImageOptimized'']"

text \<open>
  The \<open>datetime\<close> entry of a row:
  \<^verbatim>\<open>datetime.fromtimestamp(int(activity.get('timestamp', 0)), tz=timezone.utc)
      .strftime('%Y-%m-%d %H:%M:%S') if activity.get('timestamp') else ''\<close>
\<close>

definition datetime_cell :: "pylib \<Rightarrow> activity \<Rightarrow> error + string" where
  "datetime_cell lib a =
     (if truthy (get a ''timestamp'') then
        (case py_int (get_default a ''timestamp'' (JInt 0)) of
           Inl e \<Rightarrow> Inl e
         | Inr n \<Rightarrow> utc_format lib n)
      else Inr [])"

text \<open>
  The dict \<open>row\<close> in the order of \<open>fieldnames\<close>: every entry but \<open>datetime\<close> is
  \<open>activity.get(name, '')\<close>.
\<close>

definition csv_row :: "pylib \<Rightarrow> activity \<Rightarrow> error + string list" where
  "csv_row lib a =
     (case datetime_cell lib a of
        Inl e \<Rightarrow> Inl e
      | Inr dt \<Rightarrow>
          Inr (csv_cell lib (get_default a ''timestamp'' (JStr [])) # dt #
               map (\<lambda>name. csv_cell lib (get_default a name (JStr []))) (drop 2 fieldnames)))"

text \<open>
  The loop over the records inside the \<open>with\<close> block: rows are appended to what the
  file holds; a row that raises ends the loop, and the file keeps what was written.
\<close>

fun write_rows :: "pylib \<Rightarrow> string \<Rightarrow> activity list \<Rightarrow> error option \<times> string" where
  "write_rows lib content [] = (None, content)"
| "write_rows lib content (a # as) =
     (case csv_row lib a of
        Inl e \<Rightarrow> (Some e, content)
      | Inr cells \<Rightarrow> write_rows lib (content @ csv_line cells) as)"

subsection \<open>Files\<close>

text \<open>
  The file system: the directories made, the content of each file, and the paths that
  cannot be created or opened for writing (\<open>os.makedirs\<close> and \<open>open\<close> raise
  \<open>OSError\<close> there). A failure in the middle of a write is not modelled.
\<close>

record fsys =
  dirs :: "string set"
  files :: "string \<Rightarrow> string option"
  unwritable :: "string set"

text \<open>\<open>os.path.join\<close> of two components on POSIX.\<close>

definition path_join :: "string \<Rightarrow> string \<Rightarrow> string" where
  "path_join a b =
     (if b \<noteq> [] \<and> hd b = CHR ''/'' then b
      else if a = [] \<or> last a = CHR ''/'' then a @ b
      else a @ CHR ''/'' # b)"

definition csv_path :: "pylib \<Rightarrow> string \<Rightarrow> json \<Rightarrow> string" where
  "csv_path lib output_dir market_slug = path_join output_dir (py_str lib market_slug @ ''.csv'')"

text \<open>What \<open>save_market_to_csv\<close> returns: \<open>None\<close>, the dict of a skipped market, or the path.\<close>

datatype save_result = NoResult | Skipped json nat | Saved string

definition trade_count :: "activity list \<Rightarrow> nat" where
  "trade_count activities = length (filter (\<lambda>a. get a ''type'' = JStr ''TRADE'') activities)"

definition save_market_to_csv ::
    "pylib \<Rightarrow> fsys \<Rightarrow> json \<Rightarrow> activity list \<Rightarrow> string \<Rightarrow> (error + save_result) \<times> fsys" where
  "save_market_to_csv lib fs market_slug activities output_dir =
     (if activities = [] then (Inr NoResult, fs)
      else if trade_count activities < 30
        then (Inr (Skipped market_slug (trade_count activities)), fs)
      else if output_dir \<in> unwritable fs then (Inl OSError, fs)
      else
        (let fs1 = fs\<lparr>dirs := insert output_dir (dirs fs)\<rparr>;
             filepath = csv_path lib output_dir market_slug
         in if filepath \<in> unwritable fs then (Inl OSError, fs1)
            else
              (case write_rows lib (csv_line fieldnames) activities of
                 (Some e, content) \<Rightarrow>
                   (Inl e, fs1\<lparr>files := (files fs1)(filepath \<mapsto> content)\<rparr>)
               | (None, content) \<Rightarrow>
                   (Inr (Saved filepath), fs1\<lparr>files := (files fs1)(filepath \<mapsto> content)\<rparr>))))"

text \<open>The text of the file of a group whose rows all render: header, then one line per record.\<close>

definition csv_text :: "pylib \<Rightarrow> activity list \<Rightarrow> string" where
  "csv_text lib activities =
     csv_line fieldnames @ concat (map (\<lambda>a. csv_line (projr (csv_row lib a))) activities)"

subsection \<open>A library instance for concrete runs\<close>

text \<open>
  The civil date of a day number counted from 1970-01-01, in the proleptic Gregorian
  calendar, and the clock text of a timestamp. \<open>sample_lib\<close> formats the timestamps
  whose UTC year has four digits, 1000 to 9999, and reports \<open>ValueError\<close> for the
  others, whose treatment depends on the platform; it renders no float, list or dict.
  The general theorems hold for every library; this one only instantiates them.
\<close>

definition civil_of_days :: "int \<Rightarrow> int \<times> int \<times> int" where
  "civil_of_days z =
     (let z1 = z + 719468;
          era = z1 div 146097;
          doe = z1 - era * 146097;
          yoe = (doe - doe div 1460 + doe div 36524 - doe div 146096) div 365;
          doy = doe - (365 * yoe + yoe div 4 - yoe div 100);
          mp = (5 * doy + 2) div 153;
          d = doy - (153 * mp + 2) div 5 + 1;
          m = (if mp < 10 then mp + 3 else mp - 9);
          y = yoe + era * 400 + (if m \<le> 2 then 1 else 0)
      in (y, m, d))"

definition pad2 :: "int \<Rightarrow> string" where
  "pad2 n = [digit_char (nat n div 10), digit_char (nat n mod 10)]"

definition clock_text :: "int \<Rightarrow> string" where
  "clock_text t =
     (let (y, m, d) = civil_of_days (t div 86400);
          s = t mod 86400
      in show_int y @ ''-'' @ pad2 m @ ''-'' @ pad2 d @ '' '' @
         pad2 (s div 3600) @ '':'' @ pad2 (s mod 3600 div 60) @ '':'' @ pad2 (s mod 60))"

definition sample_lib :: pylib where
  "sample_lib =
     \<lparr>str_other = (\<lambda>v. []),
      utc_format = (\<lambda>t. if - 30610224000 \<le> t \<and> t \<le> 253402300799
                         then Inr (clock_text t) else Inl ValueError)\<rparr>"

text \<open>A file system with nothing in it, and one that refuses a given path.\<close>

definition empty_fs :: fsys where
  "empty_fs = \<lparr>dirs = {}, files = (\<lambda>p. None), unwritable = {}\<rparr>"

text \<open>A trade whose timestamp is an ISO date string instead of epoch seconds.\<close>

definition iso_trade :: activity where
  "iso_trade = [(''transactionHash'', JStr ''0xcc''), (''timestamp'', JStr ''2023-11-14T22:13:20Z''),
                (''type'', JStr ''TRADE''), (''slug'', JStr ''market-a'')]"

text \<open>A trade at the epoch itself.\<close>

definition epoch_trade :: activity where
  "epoch_trade = [(''transactionHash'', JStr ''0xdd''), (''timestamp'', JInt 0),
                  (''type'', JStr ''TRADE''), (''slug'', JStr ''market-a'')]"

section \<open>Pipeline Orchestrator\<close>

definition OUTPUT_ROOT :: string where
  "OUTPUT_ROOT = ''/root/mcollect/data''"

text \<open>
  The loop of \<open>process_wallet\<close> over \<open>markets.items()\<close>; the state is \<open>saved_count\<close>,
  \<open>skipped_markets\<close> and the file system. Nothing catches what
  \<open>save_market_to_csv\<close> raises, so an error ends the loop.
\<close>

fun save_loop :: "pylib \<Rightarrow> string \<Rightarrow> nat \<Rightarrow> (json \<times> nat) list \<Rightarrow> fsys \<Rightarrow> markets
    \<Rightarrow> (error + nat \<times> (json \<times> nat) list) \<times> fsys" where
  "save_loop lib output_dir saved_count skipped_markets fs [] =
     (Inr (saved_count, skipped_markets), fs)"
| "save_loop lib output_dir saved_count skipped_markets fs ((market_slug, market_activities) # ms) =
     (case save_market_to_csv lib fs market_slug market_activities output_dir of
        (Inl e, fs') \<Rightarrow> (Inl e, fs')
      | (Inr (Skipped slug trades), fs') \<Rightarrow>
          save_loop lib output_dir saved_count (skipped_markets @ [(slug, trades)]) fs' ms
      | (Inr (Saved filepath), fs') \<Rightarrow>
          if filepath \<noteq> [] then save_loop lib output_dir (saved_count + 1) skipped_markets fs' ms
          else save_loop lib output_dir saved_count skipped_markets fs' ms
      | (Inr NoResult, fs') \<Rightarrow> save_loop lib output_dir saved_count skipped_markets fs' ms)"

text \<open>
  What a run reports: no activities, or the number of markets saved and the skipped
  markets with their trade counts.
\<close>

datatype outcome = NoActivities | Summary nat "(json \<times> nat) list"

definition process_wallet ::
    "pylib \<Rightarrow> source \<Rightarrow> fsys \<Rightarrow> string \<Rightarrow> int \<Rightarrow> (error + outcome) \<times> fsys" where
  "process_wallet lib src fs wallet_name max_records =
     (let activities = fst (get_all_user_activity src max_records) in
      if activities = [] then (Inr NoActivities, fs)
      else
        (case remove_duplicates activities of
           Inl e \<Rightarrow> (Inl e, fs)
         | Inr unique \<Rightarrow>
             (case group_by_market unique of
                Inl e \<Rightarrow> (Inl e, fs)
              | Inr markets \<Rightarrow>
                  (case save_loop lib (path_join OUTPUT_ROOT wallet_name) 0 [] fs markets of
                     (Inl e, fs') \<Rightarrow> (Inl e, fs')
                   | (Inr (saved, skipped), fs') \<Rightarrow> (Inr (Summary saved skipped), fs')))))"

text \<open>
  A wallet with thirty trades in each of two markets, served in one page, and a file
  system that refuses the file of the first market.
\<close>

definition mk_trade :: "string \<Rightarrow> nat \<Rightarrow> activity" where
  "mk_trade slug i = [(''transactionHash'', JStr (''0x'' @ show_nat i)),
                      (''timestamp'', JInt (1700000000 + int i)),
                      (''type'', JStr ''TRADE''), (''slug'', JStr slug)]"

definition page_a :: "activity list" where
  "page_a = map (mk_trade ''market-a'') [0..<30]"

definition page_b :: "activity list" where
  "page_b = map (mk_trade ''market-b'') [30..<60]"

definition two_markets :: source where
  "two_markets off = (if off = 0 then Data (page_a @ page_b) else Data [])"

definition locked_fs :: fsys where
  "locked_fs = \<lparr>dirs = {}, files = (\<lambda>p. None),
                unwritable = {''/root/mcollect/data/w/market-a.csv''}\<rparr>"

section \<open>Properties of the Fetcher\<close>

lemma fetch_loop_stop:
  "\<not> (int (length a) < m \<and> off \<le> 10000) \<Longrightarrow> fetch_loop src m a off r = (a, r)"
  by (subst fetch_loop.simps) auto

lemma fetch_loop_error:
  "int (length a) < m \<Longrightarrow> off \<le> 10000 \<Longrightarrow> src off = RequestError
    \<Longrightarrow> fetch_loop src m a off r = (a, r @ [off])"
  by (subst fetch_loop.simps) simp

lemma fetch_loop_empty:
  "int (length a) < m \<Longrightarrow> off \<le> 10000 \<Longrightarrow> src off = Data []
    \<Longrightarrow> fetch_loop src m a off r = (a, r @ [off])"
  by (subst fetch_loop.simps) simp

lemma fetch_loop_short:
  "int (length a) < m \<Longrightarrow> off \<le> 10000 \<Longrightarrow> src off = Data d \<Longrightarrow> d \<noteq> []
    \<Longrightarrow> length d < 500 \<Longrightarrow> fetch_loop src m a off r = (a @ d, r @ [off])"
  by (subst fetch_loop.simps) simp

lemma fetch_loop_full:
  "int (length a) < m \<Longrightarrow> off \<le> 10000 \<Longrightarrow> src off = Data d \<Longrightarrow> 500 \<le> length d
    \<Longrightarrow> fetch_loop src m a off r = fetch_loop src m (a @ d) (off + 500) (r @ [off])"
  by (subst fetch_loop.simps) auto

lemma pages_left_Suc: "off \<le> 10000 \<Longrightarrow> pages_left off = Suc (pages_left (off + 500))"
proof -
  assume le: "off \<le> 10000"
  then have a: "10500 - off = (10000 - off) + 500" by simp
  have b: "10500 - (off + 500) = 10000 - off" by simp
  show ?thesis unfolding pages_left_def a b by simp
qed

lemma pages_left_0: "10000 < off \<Longrightarrow> pages_left off = 0"
  unfolding pages_left_def by simp

lemma fetch_loop_requests:
  "\<exists>n \<le> pages_left off. snd (fetch_loop src m a off r) = r @ map (\<lambda>k. off + 500 * k) [0..<n]"
proof (induction src m a off r rule: fetch_loop.induct)
  case (1 src m a off r)
  show ?case
  proof (cases "int (length a) < m \<and> off \<le> 10000")
    case False
    then have "snd (fetch_loop src m a off r) = r @ map (\<lambda>k. off + 500 * k) [0..<0]"
      by (simp add: fetch_loop_stop)
    then show ?thesis by blast
  next
    case True
    then have pl: "pages_left off = Suc (pages_left (off + 500))"
      by (simp add: pages_left_Suc)
    have one: "r @ [off] = r @ map (\<lambda>k. off + 500 * k) [0..<Suc 0]" by simp
    show ?thesis
    proof (cases "src off")
      case RequestError
      with True have "snd (fetch_loop src m a off r) = r @ map (\<lambda>k. off + 500 * k) [0..<Suc 0]"
        by (simp add: fetch_loop_error)
      with pl show ?thesis by (metis Suc_le_mono le0)
    next
      case (Data d)
      show ?thesis
      proof (cases "length d < 500")
        case True
        with \<open>int (length a) < m \<and> off \<le> 10000\<close> Data
        have "snd (fetch_loop src m a off r) = r @ map (\<lambda>k. off + 500 * k) [0..<Suc 0]"
          by (cases "d = []") (simp_all add: fetch_loop_empty fetch_loop_short)
        with pl show ?thesis by (metis Suc_le_mono le0)
      next
        case False
        then have full: "500 \<le> length d" and ne: "d \<noteq> []" by auto
        from "1.IH"[OF True Data ne False]
        obtain n where n: "n \<le> pages_left (off + 500)"
          and eq: "snd (fetch_loop src m (a @ d) (off + 500) (r @ [off]))
                     = (r @ [off]) @ map (\<lambda>k. off + 500 + 500 * k) [0..<n]"
          by blast
        have "snd (fetch_loop src m a off r) = r @ map (\<lambda>k. off + 500 * k) [0..<Suc n]"
          using True Data full eq by (simp add: fetch_loop_full map_upt_Suc del: upt_Suc)
        with n pl show ?thesis by (metis Suc_le_mono)
      qed
    qed
  qed
qed

lemma fetch_loop_all_full:
  "(\<And>off. \<exists>d. src off = Data d \<and> length d = 500)
    \<Longrightarrow> (0 < pages_left off \<longrightarrow> int (length a) + int (500 * (pages_left off - 1)) < m)
    \<Longrightarrow> snd (fetch_loop src m a off r) = r @ map (\<lambda>k. off + 500 * k) [0..<pages_left off]
      \<and> length (fst (fetch_loop src m a off r)) = length a + 500 * pages_left off"
proof (induction src m a off r rule: fetch_loop.induct)
  case (1 src m a off r)
  show ?case
  proof (cases "off \<le> 10000")
    case False
    then have "pages_left off = 0" by (simp add: pages_left_0)
    with False show ?thesis by (simp add: fetch_loop_stop)
  next
    case True
    then have pl: "pages_left off = Suc (pages_left (off + 500))"
      by (simp add: pages_left_Suc)
    with "1.prems"(2) have lt: "int (length a) < m" by simp
    from "1.prems"(1) obtain d where Data: "src off = Data d" and len: "length d = 500"
      by blast
    then have ne: "d \<noteq> []" and nshort: "\<not> length d < 500" by auto
    have budget: "0 < pages_left (off + 500) \<longrightarrow>
        int (length (a @ d)) + int (500 * (pages_left (off + 500) - 1)) < m"
      using "1.prems"(2) pl len by auto
    have cond: "int (length a) < m \<and> off \<le> 10000" using lt True by simp
    from "1.IH"[OF cond Data ne nshort "1.prems"(1) budget]
    have ih1: "snd (fetch_loop src m (a @ d) (off + 500) (r @ [off]))
                = (r @ [off]) @ map (\<lambda>k. off + 500 + 500 * k) [0..<pages_left (off + 500)]"
      and ih2: "length (fst (fetch_loop src m (a @ d) (off + 500) (r @ [off])))
                = length (a @ d) + 500 * pages_left (off + 500)"
      by simp_all
    have step: "fetch_loop src m a off r = fetch_loop src m (a @ d) (off + 500) (r @ [off])"
      using lt True Data len by (simp add: fetch_loop_full)
    show ?thesis
      unfolding step ih1 ih2 pl using len by (simp add: map_upt_Suc del: upt_Suc)
  qed
qed

lemma fetch_loop_bound:
  "(\<And>off d. src off = Data d \<Longrightarrow> length d \<le> 500) \<Longrightarrow> int (length a) \<le> m + 499
    \<Longrightarrow> int (length (fst (fetch_loop src m a off r))) \<le> m + 499"
proof (induction src m a off r rule: fetch_loop.induct)
  case (1 src m a off r)
  show ?case
  proof (cases "int (length a) < m \<and> off \<le> 10000")
    case False
    then show ?thesis using "1.prems"(2) by (simp add: fetch_loop_stop)
  next
    case True
    show ?thesis
    proof (cases "src off")
      case RequestError
      with True "1.prems"(2) show ?thesis by (simp add: fetch_loop_error)
    next
      case (Data d)
      have dle: "length d \<le> 500" using "1.prems"(1)[OF Data] .
      show ?thesis
      proof (cases "length d < 500")
        case True
        with \<open>int (length a) < m \<and> off \<le> 10000\<close> Data "1.prems"(2)
        show ?thesis
          by (cases "d = []") (simp_all add: fetch_loop_empty fetch_loop_short)
      next
        case False
        then have full: "500 \<le> length d" and ne: "d \<noteq> []" by auto
        have "int (length (a @ d)) \<le> m + 499" using True dle by simp
        from "1.IH"[OF True Data ne False "1.prems"(1) this]
        show ?thesis using True Data full by (simp add: fetch_loop_full)
      qed
    qed
  qed
qed

lemma pages_left_zero: "pages_left 0 = 21"
  by (simp add: pages_left_def)

lemma length_full_page: "length full_page = 500"
  by (simp add: full_page_def)

text \<open>
  Claim C8. Against a source whose first three pages hold 500, 500 and 200 records, and
  with a budget above 1000, the Fetcher requests the offsets 0, 500 and 1000 and nothing
  else, and returns the three pages concatenated: 3 requests, 1200 records. The short
  third page is kept and ends the pagination.
\<close>

theorem three_pages:
  assumes "src 0 = Data p0" and "length p0 = 500"
    and "src 500 = Data p1" and "length p1 = 500"
    and "src 1000 = Data p2" and "length p2 = 200"
    and "1000 < max_records"
  shows "get_all_user_activity src max_records = (p0 @ p1 @ p2, [0, 500, 1000])
    \<and> length (snd (get_all_user_activity src max_records)) = 3
    \<and> length (fst (get_all_user_activity src max_records)) = 1200"
proof -
  have s0: "fetch_loop src max_records [] 0 [] = fetch_loop src max_records p0 500 [0]"
    using assms by (simp add: fetch_loop_full)
  have s1: "fetch_loop src max_records p0 500 [0]
      = fetch_loop src max_records (p0 @ p1) 1000 [0, 500]"
    using assms fetch_loop_full[of p0 max_records 500 src p1 "[0]"] by simp
  have p2ne: "p2 \<noteq> []" using assms(6) by auto
  have s2: "fetch_loop src max_records (p0 @ p1) 1000 [0, 500] = (p0 @ p1 @ p2, [0, 500, 1000])"
    using assms p2ne fetch_loop_short[of "p0 @ p1" max_records 1000 src p2 "[0, 500]"] by simp
  have eq: "get_all_user_activity src max_records = (p0 @ p1 @ p2, [0, 500, 1000])"
    unfolding get_all_user_activity_def s0 s1 s2 ..
  show ?thesis unfolding eq using assms by simp
qed

theorem three_pages_witness:
  "get_all_user_activity
     (\<lambda>off. if off = 1000 then Data (replicate 200 [(''type'', JStr ''SPLIT'')])
            else Data full_page) 5000
   = (full_page @ full_page @ replicate 200 [(''type'', JStr ''SPLIT'')], [0, 500, 1000])
   \<and> length (snd (get_all_user_activity
     (\<lambda>off. if off = 1000 then Data (replicate 200 [(''type'', JStr ''SPLIT'')])
            else Data full_page) 5000)) = 3
   \<and> length (fst (get_all_user_activity
     (\<lambda>off. if off = 1000 then Data (replicate 200 [(''type'', JStr ''SPLIT'')])
            else Data full_page) 5000)) = 1200"
  using three_pages [of "\<lambda>off. if off = 1000 then Data (replicate 200 [(''type'', JStr ''SPLIT'')])
            else Data full_page" full_page full_page "replicate 200 [(''type'', JStr ''SPLIT'')]" 5000]
  by (simp add: length_full_page)

lemma requests_full_source:
  assumes "\<And>off. \<exists>d. src off = Data d \<and> length d = 500" and "10000 < max_records"
  shows "snd (get_all_user_activity src max_records) = map (\<lambda>k. 500 * k) [0..<21]"
    and "length (fst (get_all_user_activity src max_records)) = 10500"
proof -
  have b: "0 < pages_left 0 \<longrightarrow> int (length ([]::activity list)) + int (500 * (pages_left 0 - 1)) < max_records"
    using assms(2) by (simp add: pages_left_zero)
  from fetch_loop_all_full[where src = src and a = "[]" and off = 0 and r = "[]", OF assms(1) b]
  show "snd (get_all_user_activity src max_records) = map (\<lambda>k. 500 * k) [0..<21]"
    and "length (fst (get_all_user_activity src max_records)) = 10500"
    by (simp_all add: get_all_user_activity_def pages_left_zero)
qed

lemma offset_10000_listed: "(10000::nat) \<in> set (map (\<lambda>k. 500 * k) [0..<21])"
proof -
  have "(20::nat) \<in> {0..<21}" by simp
  then have "500 * (20::nat) \<in> (\<lambda>k. 500 * k) ` {0..<21}" by (rule imageI)
  then show ?thesis by simp
qed

lemma requests_bounded:
  "\<exists>n \<le> 21. snd (get_all_user_activity src max_records) = map (\<lambda>k. 500 * k) [0..<n]"
  using fetch_loop_requests[of 0 src max_records "[]" "[]"]
  by (simp add: get_all_user_activity_def pages_left_zero)

text \<open>
  Claim C3, as the code has it. Whatever the source and the budget, every request goes
  to a multiple of 500 that is at most 10000, so there are at most 21 of them: the loop
  guard is \<open>offset \<le> 10000\<close>, the request at offset 10000 itself is still made, and
  the first offset refused is 10500. Against a source of full pages and with a budget
  above 10000 the run makes exactly these 21 requests and returns 10500 records.
\<close>

theorem pagination_ceiling:
  "(\<forall>off \<in> set (snd (get_all_user_activity src max_records)). off \<le> 10000 \<and> 500 dvd off)
   \<and> length (snd (get_all_user_activity src max_records)) \<le> 21
   \<and> ((\<forall>off. \<exists>d. src off = Data d \<and> length d = 500) \<and> 10000 < max_records \<longrightarrow>
        snd (get_all_user_activity src max_records) = map (\<lambda>k. 500 * k) [0..<21]
        \<and> length (fst (get_all_user_activity src max_records)) = 10500)"
proof -
  obtain n where n: "n \<le> 21"
    and eq: "snd (get_all_user_activity src max_records) = map (\<lambda>k. 500 * k) [0..<n]"
    using requests_bounded by blast
  have a: "\<forall>off \<in> set (snd (get_all_user_activity src max_records)). off \<le> 10000 \<and> 500 dvd off"
    unfolding eq using n by auto
  have b: "length (snd (get_all_user_activity src max_records)) \<le> 21"
    unfolding eq using n by simp
  show ?thesis using a b requests_full_source[of src max_records] by blast
qed

theorem pagination_ceiling_witness:
  "snd (get_all_user_activity (\<lambda>off. Data full_page) 20000) = map (\<lambda>k. 500 * k) [0..<21]
   \<and> 10000 \<in> set (snd (get_all_user_activity (\<lambda>off. Data full_page) 20000))
   \<and> 10500 \<notin> set (snd (get_all_user_activity (\<lambda>off. Data full_page) 20000))
   \<and> length (snd (get_all_user_activity (\<lambda>off. Data full_page) 20000)) = 21
   \<and> length (fst (get_all_user_activity (\<lambda>off. Data full_page) 20000)) = 10500"
proof -
  have h: "(\<forall>off. \<exists>d. (\<lambda>off. Data full_page) off = Data d \<and> length d = 500)
      \<and> (10000::int) < 20000"
    by (simp add: length_full_page)
  note m = offset_10000_listed
  from pagination_ceiling [of "\<lambda>off. Data full_page" 20000] h
  have r: "snd (get_all_user_activity (\<lambda>off. Data full_page) 20000)
        = map (\<lambda>k. 500 * k) [0..<21]"
    and b: "\<forall>off \<in> set (snd (get_all_user_activity (\<lambda>off. Data full_page) 20000)).
        off \<le> 10000 \<and> 500 dvd off"
    and l: "length (fst (get_all_user_activity (\<lambda>off. Data full_page) 20000)) = 10500"
    by blast+
  from b have n: "10500 \<notin> set (snd (get_all_user_activity (\<lambda>off. Data full_page) 20000))"
    by auto
  from r m n l show ?thesis by simp
qed

text \<open>
  The claim as stated has no request once the offset has reached 10000. A source of
  full pages with a budget of 20000 records is asked for the page at offset 10000.
\<close>

theorem pagination_ceiling_counterexample:
  "\<not> (\<forall>off \<in> set (snd (get_all_user_activity (\<lambda>off. Data full_page) 20000)).
        off < 10000)"
proof -
  have r: "snd (get_all_user_activity (\<lambda>off. Data full_page) 20000)
      = map (\<lambda>k. 500 * k) [0..<21]"
    by (rule requests_full_source) (simp_all add: length_full_page)
  note m = offset_10000_listed
  show ?thesis unfolding r using m by (metis less_irrefl)
qed

text \<open>
  Claim C10, as the code has it. Pages are appended whole and the budget is tested only
  before a request. When no page of the source holds more than the 500 records asked
  for, and the budget is at least \<open>-499\<close> (every budget from 0 up), the batch returned
  has at most \<open>max_records + 499\<close> records. Against a source of full pages a budget of
  600 returns 1000 records.
\<close>

theorem overshoot_bound:
  "((\<forall>off d. src off = Data d \<longrightarrow> length d \<le> 500) \<and> - 499 \<le> max_records \<longrightarrow>
      int (length (fst (get_all_user_activity src max_records))) \<le> max_records + 499)
   \<and> ((\<forall>off. \<exists>d. src off = Data d \<and> length d = 500) \<longrightarrow>
      length (fst (get_all_user_activity src 600)) = 1000)"
proof -
  have a: "int (length (fst (get_all_user_activity src max_records))) \<le> max_records + 499"
    if "\<forall>off d. src off = Data d \<longrightarrow> length d \<le> 500" and "- 499 \<le> max_records"
    unfolding get_all_user_activity_def
    by (rule fetch_loop_bound) (use that in auto)
  have b: "length (fst (get_all_user_activity src 600)) = 1000"
    if full: "\<forall>off. \<exists>d. src off = Data d \<and> length d = 500"
  proof -
    from full obtain p0 where p0: "src 0 = Data p0" "length p0 = 500" by blast
    from full obtain p1 where p1: "src 500 = Data p1" "length p1 = 500" by blast
    have s0: "fetch_loop src 600 [] 0 [] = fetch_loop src 600 p0 500 [0]"
      using p0 by (simp add: fetch_loop_full)
    have s1: "fetch_loop src 600 p0 500 [0] = fetch_loop src 600 (p0 @ p1) 1000 [0, 500]"
      using p0 p1 fetch_loop_full [of p0 600 500 src p1 "[0]"] by simp
    have s2: "fetch_loop src 600 (p0 @ p1) 1000 [0, 500] = (p0 @ p1, [0, 500])"
      using p0 p1 by (simp add: fetch_loop_stop)
    show ?thesis unfolding get_all_user_activity_def s0 s1 s2 using p0 p1 by simp
  qed
  from a b show ?thesis by blast
qed

theorem overshoot_bound_witness:
  "int (length (fst (get_all_user_activity (\<lambda>off. Data full_page) 600))) \<le> 600 + 499
   \<and> length (fst (get_all_user_activity (\<lambda>off. Data full_page) 600)) = 1000
   \<and> (600::int) < int (length (fst (get_all_user_activity (\<lambda>off. Data full_page) 600)))"
proof -
  have h: "(\<forall>off d. (\<lambda>off. Data full_page) off = Data d \<longrightarrow> length d \<le> 500)
      \<and> (\<forall>off. \<exists>d. (\<lambda>off. Data full_page) off = Data d \<and> length d = 500)"
    by (auto simp add: length_full_page)
  from overshoot_bound [of "\<lambda>off. Data full_page" 600] h
  show ?thesis by simp
qed

text \<open>
  The bound of the claim is stated for every source. A source that answers the first
  request with 1000 records, ignoring the page size, makes a budget of 1 return 1000.
\<close>

theorem overshoot_bound_counterexample:
  "\<not> int (length (fst (get_all_user_activity
        (\<lambda>off. if off = 0 then Data (full_page @ full_page) else Data []) 1))) \<le> 1 + 499"
proof -
  have s0: "fetch_loop (\<lambda>off. if off = 0 then Data (full_page @ full_page) else Data []) 1 [] 0 []
      = fetch_loop (\<lambda>off. if off = 0 then Data (full_page @ full_page) else Data []) 1
          (full_page @ full_page) 500 [0]"
    using fetch_loop_full [of "[]" 1 0
        "\<lambda>off. if off = 0 then Data (full_page @ full_page) else Data []"
        "full_page @ full_page" "[]"]
    by (simp add: length_full_page)
  have s1: "fetch_loop (\<lambda>off. if off = 0 then Data (full_page @ full_page) else Data []) 1
          (full_page @ full_page) 500 [0] = (full_page @ full_page, [0])"
    by (rule fetch_loop_stop) (simp add: length_full_page)
  show ?thesis unfolding get_all_user_activity_def s0 s1 by (simp add: length_full_page)
qed

section \<open>Properties of the Deduplicator\<close>

lemma fresh_Cons_new:
  assumes "unique_key a = Inr k" and "k \<notin> seen"
  shows "0 \<in> fresh seen (a # as)"
    and "{j. Suc j \<in> fresh seen (a # as)} = fresh (insert k seen) as"
proof -
  show "0 \<in> fresh seen (a # as)" using assms by (auto simp: fresh_def)
  show "{j. Suc j \<in> fresh seen (a # as)} = fresh (insert k seen) as"
    using assms by (auto simp: fresh_def less_Suc_eq_0_disj nth_Cons')
qed

lemma fresh_Cons_old:
  assumes "unique_key a = Inr k" and "k \<in> seen"
  shows "0 \<notin> fresh seen (a # as)"
    and "{j. Suc j \<in> fresh seen (a # as)} = fresh seen as"
proof -
  show "0 \<notin> fresh seen (a # as)" using assms by (auto simp: fresh_def)
  show "{j. Suc j \<in> fresh seen (a # as)} = fresh seen as"
    using assms by (auto simp: fresh_def less_Suc_eq_0_disj nth_Cons') (metis imageI)
qed

lemma dedup_loop_nths:
  "(\<And>a. a \<in> set xs \<Longrightarrow> \<exists>k. unique_key a = Inr k)
    \<Longrightarrow> dedup_loop seen acc xs = Inr (acc @ nths xs (fresh seen xs))"
proof (induction xs arbitrary: seen acc)
  case Nil
  show ?case by simp
next
  case (Cons a as)
  from Cons.prems obtain k where k: "unique_key a = Inr k" by auto
  have rest: "\<And>b. b \<in> set as \<Longrightarrow> \<exists>k. unique_key b = Inr k" using Cons.prems by auto
  show ?case
  proof (cases "k \<in> seen")
    case True
    show ?thesis
      using k True Cons.IH[OF rest, of seen acc] fresh_Cons_old[OF k True, of as]
      by (simp add: nths_Cons)
  next
    case False
    show ?thesis
      using k False Cons.IH[OF rest, of "insert k seen" "acc @ [a]"]
        fresh_Cons_new[OF k False, of as]
      by (simp add: nths_Cons)
  qed
qed

lemma fresh_empty: "fresh {} xs = first_occurrences xs"
  by (simp add: fresh_def first_occurrences_def)

lemma remove_duplicates_nths:
  "(\<And>a. a \<in> set xs \<Longrightarrow> \<exists>k. unique_key a = Inr k)
    \<Longrightarrow> remove_duplicates xs = Inr (nths xs (first_occurrences xs))"
  unfolding remove_duplicates_def using dedup_loop_nths[of xs "{}" "[]"]
  by (simp add: fresh_empty)

lemma dedup_loop_distinct:
  "dedup_loop seen acc xs = Inr ys \<Longrightarrow> distinct (map unique_key acc)
    \<Longrightarrow> unique_key ` set acc \<subseteq> Inr ` seen \<Longrightarrow> distinct (map unique_key ys)"
proof (induction xs arbitrary: seen acc)
  case Nil
  then show ?case by simp
next
  case (Cons a as)
  show ?case
  proof (cases "unique_key a")
    case (Inl e)
    with Cons.prems(1) show ?thesis by simp
  next
    case (Inr k)
    show ?thesis
    proof (cases "k \<in> seen")
      case True
      with Inr Cons.prems have "dedup_loop seen acc as = Inr ys" by simp
      from Cons.IH[OF this Cons.prems(2,3)] show ?thesis .
    next
      case False
      with Inr Cons.prems have run: "dedup_loop (insert k seen) (acc @ [a]) as = Inr ys" by simp
      have d: "distinct (map unique_key (acc @ [a]))"
        using Cons.prems(2,3) Inr False by auto
      have s: "unique_key ` set (acc @ [a]) \<subseteq> Inr ` insert k seen"
        using Cons.prems(3) Inr by auto
      from Cons.IH[OF run d s] show ?thesis .
    qed
  qed
qed

lemma first_occurrence_exists:
  assumes "i < length xs"
  shows "\<exists>k\<le>i. k \<in> first_occurrences xs \<and> unique_key (xs ! k) = unique_key (xs ! i)"
proof -
  define k where "k = (LEAST k. unique_key (xs ! k) = unique_key (xs ! i))"
  have eq: "unique_key (xs ! k) = unique_key (xs ! i)"
    unfolding k_def by (rule LeastI [of _ i]) simp
  have le: "k \<le> i" unfolding k_def by (rule Least_le) simp
  have first: "unique_key (xs ! j) \<noteq> unique_key (xs ! i)" if "j < k" for j
    using not_less_Least [of j "\<lambda>k. unique_key (xs ! k) = unique_key (xs ! i)"] that
    unfolding k_def by blast
  have "k \<in> first_occurrences xs"
    using le assms first eq by (simp add: first_occurrences_def)
  with le eq show ?thesis by blast
qed

lemma first_occurrences_keys:
  "unique_key ` set (nths xs (first_occurrences xs)) = unique_key ` set xs"
proof
  show "unique_key ` set (nths xs (first_occurrences xs)) \<subseteq> unique_key ` set xs"
    using set_nths_subset [of xs "first_occurrences xs"] by blast
  show "unique_key ` set xs \<subseteq> unique_key ` set (nths xs (first_occurrences xs))"
  proof
    fix u assume "u \<in> unique_key ` set xs"
    then obtain i where i: "i < length xs" and u: "u = unique_key (xs ! i)"
      by (auto simp: in_set_conv_nth)
    from first_occurrence_exists [OF i] obtain k where k: "k \<le> i"
      "k \<in> first_occurrences xs" "unique_key (xs ! k) = unique_key (xs ! i)" by blast
    have "xs ! k \<in> set (nths xs (first_occurrences xs))"
      using k i by (auto simp: set_nths)
    then show "u \<in> unique_key ` set (nths xs (first_occurrences xs))"
      using k(3) u by (metis imageI)
  qed
qed

lemma later_duplicate_dropped:
  assumes "i < j" and "unique_key (xs ! j) = unique_key (xs ! i)"
  shows "j \<notin> first_occurrences xs"
  using assms by (auto simp: first_occurrences_def)

lemma unique_key_tx:
  "truthy (get a ''transactionHash'') \<Longrightarrow> get b ''transactionHash'' = get a ''transactionHash''
    \<Longrightarrow> unique_key b = unique_key a"
  by (simp add: unique_key_def)

lemma remove_duplicates_distinct:
  "remove_duplicates xs = Inr ys \<Longrightarrow> distinct (map unique_key ys)"
  unfolding remove_duplicates_def using dedup_loop_distinct [of "{}" "[]" xs ys] by simp

lemma remove_duplicates_pair:
  assumes "truthy (get a ''transactionHash'')"
    and "get b ''transactionHash'' = get a ''transactionHash''"
    and "unique_key a = Inr k"
  shows "remove_duplicates [a, b] = Inr [a]"
  using assms unique_key_tx [OF assms(1,2)] by (simp add: remove_duplicates_def)

lemma run_three_trades:
  "remove_duplicates [trade_1, trade_2, trade_1_again] = Inr [trade_1, trade_2]"
  by (simp add: remove_duplicates_def unique_key_def get_def trade_1_def trade_2_def
      trade_1_again_def)

lemma three_trades_keys:
  "unique_key trade_1 = Inr (Single (KStr ''0xaa''))"
  "unique_key trade_2 = Inr (Single (KStr ''0xbb''))"
  "unique_key trade_1_again = Inr (Single (KStr ''0xaa''))"
  by (simp_all add: unique_key_def get_def trade_1_def trade_2_def trade_1_again_def)

text \<open>
  Claim C6. On a batch whose identity fields are hashable, the Deduplicator returns
  the records at the positions of first occurrence, in input order: a subsequence of
  the batch with pairwise distinct identities that still has every identity of the
  batch. A record whose truthy transaction hash already occurred earlier is dropped,
  and the record kept for that hash is at or before the earlier position; of two
  records with one truthy transaction hash only the first is returned.
\<close>

theorem first_occurrence_wins:
  assumes "\<forall>a\<in>set xs. \<exists>k. unique_key a = Inr k"
  shows "\<exists>ys. remove_duplicates xs = Inr ys
      \<and> ys = nths xs (first_occurrences xs)
      \<and> subseq ys xs
      \<and> distinct (map unique_key ys)
      \<and> unique_key ` set ys = unique_key ` set xs
      \<and> (\<forall>i j. i < j \<and> j < length xs \<and> truthy (get (xs ! i) ''transactionHash'')
            \<and> get (xs ! j) ''transactionHash'' = get (xs ! i) ''transactionHash''
          \<longrightarrow> j \<notin> first_occurrences xs
            \<and> (\<exists>k\<le>i. k \<in> first_occurrences xs
                   \<and> unique_key (xs ! k) = unique_key (xs ! i)))
      \<and> (\<forall>a b. a \<in> set xs \<and> truthy (get a ''transactionHash'')
            \<and> get b ''transactionHash'' = get a ''transactionHash''
          \<longrightarrow> remove_duplicates [a, b] = Inr [a])"
proof -
  let ?ys = "nths xs (first_occurrences xs)"
  have run: "remove_duplicates xs = Inr ?ys"
    by (rule remove_duplicates_nths) (use assms in blast)
  have sub: "subseq ?ys xs"
    unfolding subseq_conv_nths by blast
  have dist: "distinct (map unique_key ?ys)"
    using run by (rule remove_duplicates_distinct)
  have keys: "unique_key ` set ?ys = unique_key ` set xs"
    by (rule first_occurrences_keys)
  have dup: "j \<notin> first_occurrences xs
      \<and> (\<exists>k\<le>i. k \<in> first_occurrences xs \<and> unique_key (xs ! k) = unique_key (xs ! i))"
    if "i < j" "j < length xs" "truthy (get (xs ! i) ''transactionHash'')"
      "get (xs ! j) ''transactionHash'' = get (xs ! i) ''transactionHash''" for i j
  proof -
    have "unique_key (xs ! j) = unique_key (xs ! i)"
      using that(3,4) by (rule unique_key_tx)
    with that(1) have "j \<notin> first_occurrences xs" by (rule later_duplicate_dropped)
    moreover have "i < length xs" using that(1,2) by simp
    ultimately show ?thesis using first_occurrence_exists by blast
  qed
  have pair: "remove_duplicates [a, b] = Inr [a]"
    if "a \<in> set xs" "truthy (get a ''transactionHash'')"
      "get b ''transactionHash'' = get a ''transactionHash''" for a b
  proof -
    from assms that(1) obtain k where "unique_key a = Inr k" by blast
    with that(2,3) show ?thesis by (rule remove_duplicates_pair)
  qed
  from run sub dist keys dup pair show ?thesis by blast
qed

theorem first_occurrence_wins_witness:
  "remove_duplicates [trade_1, trade_2, trade_1_again] = Inr [trade_1, trade_2]
   \<and> nths [trade_1, trade_2, trade_1_again]
        (first_occurrences [trade_1, trade_2, trade_1_again]) = [trade_1, trade_2]
   \<and> subseq [trade_1, trade_2] [trade_1, trade_2, trade_1_again]
   \<and> 2 \<notin> first_occurrences [trade_1, trade_2, trade_1_again]
   \<and> remove_duplicates [trade_1, trade_1_again] = Inr [trade_1]"
proof -
  have h: "\<forall>a\<in>set [trade_1, trade_2, trade_1_again]. \<exists>k. unique_key a = Inr k"
    by (simp add: three_trades_keys)
  have tx: "truthy (get trade_1 ''transactionHash'')"
    "get trade_1_again ''transactionHash'' = get trade_1 ''transactionHash''"
    by (simp_all add: get_def trade_1_def trade_1_again_def)
  from first_occurrence_wins [OF h] obtain ys where
    ys: "remove_duplicates [trade_1, trade_2, trade_1_again] = Inr ys"
      "ys = nths [trade_1, trade_2, trade_1_again]
              (first_occurrences [trade_1, trade_2, trade_1_again])"
      "subseq ys [trade_1, trade_2, trade_1_again]"
    and dup: "\<forall>i j. i < j \<and> j < length [trade_1, trade_2, trade_1_again]
            \<and> truthy (get ([trade_1, trade_2, trade_1_again] ! i) ''transactionHash'')
            \<and> get ([trade_1, trade_2, trade_1_again] ! j) ''transactionHash''
                = get ([trade_1, trade_2, trade_1_again] ! i) ''transactionHash''
          \<longrightarrow> j \<notin> first_occurrences [trade_1, trade_2, trade_1_again]
            \<and> (\<exists>k\<le>i. k \<in> first_occurrences [trade_1, trade_2, trade_1_again]
                   \<and> unique_key ([trade_1, trade_2, trade_1_again] ! k)
                      = unique_key ([trade_1, trade_2, trade_1_again] ! i))"
    and pair: "\<forall>a b. a \<in> set [trade_1, trade_2, trade_1_again]
            \<and> truthy (get a ''transactionHash'')
            \<and> get b ''transactionHash'' = get a ''transactionHash''
          \<longrightarrow> remove_duplicates [a, b] = Inr [a]"
    by blast
  from ys(1) have e: "ys = [trade_1, trade_2]" by (simp add: run_three_trades)
  from dup [rule_format, of 0 2] tx
  have d: "2 \<notin> first_occurrences [trade_1, trade_2, trade_1_again]" by simp
  from pair [rule_format, of trade_1 trade_1_again] tx
  have p: "remove_duplicates [trade_1, trade_1_again] = Inr [trade_1]" by simp
  from ys e d p show ?thesis by simp
qed

text \<open>
  Claim C1 on the code. The third component of the fallback identity is the slug of a
  nested \<open>market\<close> dict, not the top-level \<open>slug\<close> the Grouper reads. Two records
  without transaction hash that agree on timestamp, type and side and differ in their
  \<open>slug\<close> have the same identity, so the second is dropped, although the Grouper
  would put them into different groups.
\<close>

theorem fallback_key_ignores_slug:
  "unique_key split_a = Inr (Tuple4 (KNum 1700000000) (KStr ''SPLIT'') KNone KNone)
   \<and> unique_key split_b = unique_key split_a
   \<and> get split_a ''slug'' = JStr ''market-a''
   \<and> get split_b ''slug'' = JStr ''market-b''
   \<and> remove_duplicates [split_a, split_b] = Inr [split_a]
   \<and> group_by_market [split_a, split_b]
       = Inr [(JStr ''market-a'', [split_a]), (JStr ''market-b'', [split_b])]"
  by (simp add: remove_duplicates_def group_by_market_def unique_key_def nested_slug_def
      get_def split_a_def split_b_def Let_def)

section \<open>Properties of the Grouper\<close>

lemma market_keys_append_market:
  "market_keys (append_market slug a ms) =
     (if hkey_of slug \<in> set (market_keys ms) then market_keys ms
      else market_keys ms @ [hkey_of slug])"
  by (induction slug a ms rule: append_market.induct) (auto simp: market_keys_def)

lemma market_of_append_market:
  "market_of k (append_market slug a ms) =
     market_of k ms @ (if hkey_of slug = hkey_of k then [a] else [])"
  by (induction slug a ms rule: append_market.induct) auto

lemma remdups_drop_repeated:
  "h \<in> set ys \<Longrightarrow> remdups (xs @ h # ys) = remdups (xs @ ys)"
  by (induction xs) auto

lemma first_seen_known: "h \<in> set ks \<Longrightarrow> first_seen (ks @ h # rest) = first_seen (ks @ rest)"
  by (simp add: first_seen_def remdups_drop_repeated)

lemma first_seen_distinct: "distinct (first_seen ks)"
  by (simp add: first_seen_def)

lemma first_seen_id: "distinct ks \<Longrightarrow> first_seen ks = ks"
  by (simp add: first_seen_def distinct_remdups_id)

lemma set_first_seen: "set (first_seen ks) = set ks"
  by (simp add: first_seen_def)

lemma well_keyed_append_market:
  "well_keyed ms \<Longrightarrow> well_keyed (append_market (get a ''slug'') a ms)"
  by (induction "get a ''slug''" a ms rule: append_market.induct)
     (auto simp: well_keyed_def)

lemma group_loop_spec:
  "(\<And>a. a \<in> set xs \<Longrightarrow> truthy (get a ''slug'') \<Longrightarrow> hkey_of (get a ''slug'') \<noteq> None)
    \<Longrightarrow> \<exists>ms'. group_loop ms xs = Inr ms'
        \<and> (\<forall>k. market_of k ms' = market_of k ms @ filter (in_market k) xs)
        \<and> first_seen (market_keys ms') = first_seen (market_keys ms @ slug_keys xs)
        \<and> (distinct (market_keys ms) \<longrightarrow> distinct (market_keys ms'))
        \<and> (well_keyed ms \<longrightarrow> well_keyed ms')"
proof (induction xs arbitrary: ms)
  case Nil
  show ?case by (simp add: slug_keys_def)
next
  case (Cons a as)
  have rest: "\<And>b. b \<in> set as \<Longrightarrow> truthy (get b ''slug'') \<Longrightarrow> hkey_of (get b ''slug'') \<noteq> None"
    using Cons.prems by auto
  show ?case
  proof (cases "truthy (get a ''slug'')")
    case False
    from Cons.IH[OF rest, of ms] False show ?thesis
      by (simp add: in_market_def slug_keys_def)
  next
    case True
    with Cons.prems obtain h where h: "hkey_of (get a ''slug'') = Some h" by auto
    let ?ms1 = "append_market (get a ''slug'') a ms"
    from Cons.IH[OF rest, of ?ms1] obtain ms' where
      run: "group_loop ?ms1 as = Inr ms'"
      and mk: "\<forall>k. market_of k ms' = market_of k ?ms1 @ filter (in_market k) as"
      and ks: "first_seen (market_keys ms') = first_seen (market_keys ?ms1 @ slug_keys as)"
      and di: "distinct (market_keys ?ms1) \<longrightarrow> distinct (market_keys ms')"
      and wk: "well_keyed ?ms1 \<longrightarrow> well_keyed ms'"
      by blast
    have run': "group_loop ms (a # as) = Inr ms'"
      using True h run by (simp add: Let_def)
    have mk': "\<forall>k. market_of k ms' = market_of k ms @ filter (in_market k) (a # as)"
      using mk True by (auto simp: market_of_append_market in_market_def)
    have sk: "slug_keys (a # as) = hkey_of (get a ''slug'') # slug_keys as"
      using True by (simp add: slug_keys_def)
    have ks': "first_seen (market_keys ms') = first_seen (market_keys ms @ slug_keys (a # as))"
      unfolding ks sk market_keys_append_market
      by (simp add: first_seen_known)
    have di': "distinct (market_keys ms) \<longrightarrow> distinct (market_keys ms')"
      using di by (auto simp: market_keys_append_market)
    have wk': "well_keyed ms \<longrightarrow> well_keyed ms'"
      using wk well_keyed_append_market by blast
    from run' mk' ks' di' wk' show ?thesis by blast
  qed
qed

lemma market_of_member:
  "distinct (market_keys ms) \<Longrightarrow> (k, g) \<in> set ms \<Longrightarrow> market_of k ms = g"
  by (induction ms) (auto simp: market_keys_def rev_image_eqI)

lemma market_of_found:
  "market_of k ms \<noteq> [] \<Longrightarrow> \<exists>k'. (k', market_of k ms) \<in> set ms \<and> hkey_of k' = hkey_of k"
  by (induction ms) (auto split: if_splits)

lemma market_keys_inj:
  "distinct (market_keys ms) \<Longrightarrow> kg \<in> set ms \<Longrightarrow> kg' \<in> set ms
    \<Longrightarrow> hkey_of (fst kg) = hkey_of (fst kg') \<Longrightarrow> kg = kg'"
  unfolding market_keys_def by (auto simp: distinct_map inj_on_def)

lemma group_by_market_spec:
  assumes "\<And>a. a \<in> set xs \<Longrightarrow> truthy (get a ''slug'') \<Longrightarrow> hkey_of (get a ''slug'') \<noteq> None"
  shows "\<exists>ms. group_by_market xs = Inr ms
        \<and> (\<forall>k. market_of k ms = filter (in_market k) xs)
        \<and> market_keys ms = first_seen (slug_keys xs)
        \<and> distinct (market_keys ms)
        \<and> well_keyed ms"
proof -
  from group_loop_spec[OF assms, of xs "[]"] obtain ms where
    run: "group_loop [] xs = Inr ms"
    and mk: "\<forall>k. market_of k ms = market_of k [] @ filter (in_market k) xs"
    and ks: "first_seen (market_keys ms) = first_seen (market_keys [] @ slug_keys xs)"
    and di: "distinct (market_keys []) \<longrightarrow> distinct (market_keys ms)"
    and wk: "well_keyed [] \<longrightarrow> well_keyed ms"
    by blast
  have d: "distinct (market_keys ms)" using di by (simp add: market_keys_def)
  have w: "well_keyed ms" using wk by (simp add: well_keyed_def)
  have k: "market_keys ms = first_seen (slug_keys xs)"
    using ks first_seen_id[OF d] by (simp add: market_keys_def)
  from run mk k d w show ?thesis by (auto simp: group_by_market_def)
qed

lemma run_grouping:
  "group_by_market [trade_1, trade_2, reward, trade_1_again]
     = Inr [(JStr ''market-a'', [trade_1, trade_1_again]), (JStr ''market-b'', [trade_2])]"
  by (simp add: group_by_market_def get_def trade_1_def trade_2_def trade_1_again_def
      reward_def Let_def)

text \<open>
  Claim C7. On a batch whose truthy group keys are hashable, the Grouper returns a dict
  whose keys are pairwise different; the group of a key holds exactly the records of
  the batch with a truthy \<open>slug\<close> equal to that key, in batch order, is not empty, and
  is stored under the \<open>slug\<close> of its first record. So a record with a truthy \<open>slug\<close>
  is in one group and no other, the one its \<open>slug\<close> looks up, and a record with an
  absent or empty \<open>slug\<close> is in none. The keys come in the order in which the batch
  first presents them.
\<close>

theorem grouping_partition:
  assumes "\<forall>a\<in>set xs. truthy (get a ''slug'') \<longrightarrow> hkey_of (get a ''slug'') \<noteq> None"
  shows "\<exists>ms. group_by_market xs = Inr ms
      \<and> distinct (market_keys ms)
      \<and> (\<forall>(k, g)\<in>set ms. g = filter (in_market k) xs \<and> g \<noteq> [] \<and> k = get (hd g) ''slug'')
      \<and> (\<forall>a\<in>set xs. truthy (get a ''slug'') \<longrightarrow>
            a \<in> set (market_of (get a ''slug'') ms)
            \<and> (\<exists>!kg. kg \<in> set ms \<and> a \<in> set (snd kg)))
      \<and> (\<forall>a. \<not> truthy (get a ''slug'') \<longrightarrow> (\<forall>(k, g)\<in>set ms. a \<notin> set g))
      \<and> market_keys ms = first_seen (slug_keys xs)"
proof -
  from group_by_market_spec[of xs] assms obtain ms where
    run: "group_by_market xs = Inr ms"
    and mk: "\<forall>k. market_of k ms = filter (in_market k) xs"
    and ks: "market_keys ms = first_seen (slug_keys xs)"
    and di: "distinct (market_keys ms)"
    and wk: "well_keyed ms"
    by blast
  have grp: "g = filter (in_market k) xs \<and> g \<noteq> [] \<and> k = get (hd g) ''slug''"
    if kg: "(k, g) \<in> set ms" for k g
  proof -
    have "market_of k ms = g" using di kg by (rule market_of_member)
    with mk[rule_format, of k] have a: "g = filter (in_market k) xs" by simp
    from wk kg have "g \<noteq> [] \<and> k = get (hd g) ''slug''"
      unfolding well_keyed_def by blast
    with a show ?thesis by blast
  qed
  have members: "in_market k a" if "(k, g) \<in> set ms" "a \<in> set g" for k g a
  proof -
    from grp[OF that(1)] have "g = filter (in_market k) xs" by blast
    with that(2) have "a \<in> set (filter (in_market k) xs)" by simp
    then show ?thesis by simp
  qed
  have one: "a \<in> set (market_of (get a ''slug'') ms)
      \<and> (\<exists>!kg. kg \<in> set ms \<and> a \<in> set (snd kg))"
    if a: "a \<in> set xs" and t: "truthy (get a ''slug'')" for a
  proof -
    have own: "a \<in> set (market_of (get a ''slug'') ms)"
      using mk a t by (simp add: in_market_def)
    then have "market_of (get a ''slug'') ms \<noteq> []" by auto
    from market_of_found[OF this] obtain k' where
      k': "(k', market_of (get a ''slug'') ms) \<in> set ms" by blast
    have ex: "(k', market_of (get a ''slug'') ms) \<in> set ms
        \<and> a \<in> set (snd (k', market_of (get a ''slug'') ms))"
      using k' own by simp
    have uniq: "kg = kg'"
      if "kg \<in> set ms" "a \<in> set (snd kg)" "kg' \<in> set ms" "a \<in> set (snd kg')" for kg kg'
    proof -
      have "in_market (fst kg) a" using members[of "fst kg" "snd kg" a] that(1,2) by simp
      moreover have "in_market (fst kg') a"
        using members[of "fst kg'" "snd kg'" a] that(3,4) by simp
      ultimately have "hkey_of (fst kg) = hkey_of (fst kg')" by (simp add: in_market_def)
      with di that(1,3) show ?thesis by (rule market_keys_inj)
    qed
    from ex uniq have "\<exists>!kg. kg \<in> set ms \<and> a \<in> set (snd kg)" by blast
    with own show ?thesis by blast
  qed
  have none: "a \<notin> set g" if "\<not> truthy (get a ''slug'')" "(k, g) \<in> set ms" for a k g
    using members[OF that(2), of a] that(1) by (auto simp: in_market_def)
  from run di grp one none ks show ?thesis by blast
qed

theorem grouping_partition_witness:
  "group_by_market [trade_1, trade_2, reward, trade_1_again]
     = Inr [(JStr ''market-a'', [trade_1, trade_1_again]), (JStr ''market-b'', [trade_2])]
   \<and> market_of (JStr ''market-a'') [(JStr ''market-a'', [trade_1, trade_1_again]),
        (JStr ''market-b'', [trade_2])] = [trade_1, trade_1_again]
   \<and> first_seen (slug_keys [trade_1, trade_2, reward, trade_1_again])
     = [Some (KStr ''market-a''), Some (KStr ''market-b'')]
   \<and> filter (in_market (JStr ''market-a'')) [trade_1, trade_2, reward, trade_1_again]
     = [trade_1, trade_1_again]"
proof -
  have h: "\<forall>a\<in>set [trade_1, trade_2, reward, trade_1_again].
      truthy (get a ''slug'') \<longrightarrow> hkey_of (get a ''slug'') \<noteq> None"
    by (simp add: get_def trade_1_def trade_2_def trade_1_again_def reward_def)
  from grouping_partition [OF h] obtain ms where
    run: "group_by_market [trade_1, trade_2, reward, trade_1_again] = Inr ms"
    and grp: "\<forall>(k, g)\<in>set ms. g = filter (in_market k) [trade_1, trade_2, reward, trade_1_again]
        \<and> g \<noteq> [] \<and> k = get (hd g) ''slug''"
    and ks: "market_keys ms = first_seen (slug_keys [trade_1, trade_2, reward, trade_1_again])"
    by blast
  from run have ms: "ms = [(JStr ''market-a'', [trade_1, trade_1_again]),
      (JStr ''market-b'', [trade_2])]"
    by (simp add: run_grouping)
  from grp have f: "[trade_1, trade_1_again]
      = filter (in_market (JStr ''market-a'')) [trade_1, trade_2, reward, trade_1_again]"
    unfolding ms by simp
  from ks have k: "first_seen (slug_keys [trade_1, trade_2, reward, trade_1_again])
      = [Some (KStr ''market-a''), Some (KStr ''market-b'')]"
    unfolding ms by (simp add: market_keys_def)
  from run ms f k show ?thesis by simp
qed

section \<open>Properties of the Persistence Gate\<close>

lemma write_rows_ok:
  "(\<And>a. a \<in> set as \<Longrightarrow> \<exists>r. csv_row lib a = Inr r)
    \<Longrightarrow> write_rows lib c as
        = (None, c @ concat (map (\<lambda>a. csv_line (projr (csv_row lib a))) as))"
proof (induction as arbitrary: c)
  case Nil
  show ?case by simp
next
  case (Cons a as)
  from Cons.prems obtain r where r: "csv_row lib a = Inr r" by auto
  have rest: "\<And>b. b \<in> set as \<Longrightarrow> \<exists>r. csv_row lib b = Inr r" using Cons.prems by auto
  show ?case using r Cons.IH[OF rest, of "c @ csv_line r"] by simp
qed

lemma write_rows_error:
  "a \<in> set as \<Longrightarrow> csv_row lib a = Inl e \<Longrightarrow> \<exists>e' c'. write_rows lib c as = (Some e', c')"
proof (induction as arbitrary: c)
  case Nil
  then show ?case by simp
next
  case (Cons b bs)
  show ?case
  proof (cases "csv_row lib b")
    case (Inl e0)
    then show ?thesis by simp
  next
    case (Inr r)
    with Cons.prems have "a \<in> set bs" by auto
    from Cons.IH[OF this Cons.prems(2), of "c @ csv_line r"] Inr show ?thesis by simp
  qed
qed

lemma csv_text_rows:
  "(\<And>a. a \<in> set as \<Longrightarrow> \<exists>r. csv_row lib a = Inr r)
    \<Longrightarrow> write_rows lib (csv_line fieldnames) as = (None, csv_text lib as)"
  unfolding csv_text_def by (rule write_rows_ok)

lemma save_skipped:
  "activities \<noteq> [] \<Longrightarrow> trade_count activities < 30
    \<Longrightarrow> save_market_to_csv lib fs slug activities dir
        = (Inr (Skipped slug (trade_count activities)), fs)"
  by (simp add: save_market_to_csv_def)

lemma trades_nonempty: "30 \<le> trade_count activities \<Longrightarrow> activities \<noteq> []"
  by (auto simp: trade_count_def)

lemma save_written:
  assumes "30 \<le> trade_count activities" and "dir \<notin> unwritable fs"
    and "csv_path lib dir slug \<notin> unwritable fs"
    and "\<And>a. a \<in> set activities \<Longrightarrow> \<exists>r. csv_row lib a = Inr r"
  shows "save_market_to_csv lib fs slug activities dir
    = (Inr (Saved (csv_path lib dir slug)),
       fs\<lparr>dirs := insert dir (dirs fs),
          files := (files fs)(csv_path lib dir slug \<mapsto> csv_text lib activities)\<rparr>)"
  using assms(1-3) trades_nonempty[OF assms(1)] csv_text_rows[OF assms(4)]
  by (simp add: save_market_to_csv_def Let_def)

lemma save_unwritable:
  assumes "30 \<le> trade_count activities" and "dir \<notin> unwritable fs"
    and "csv_path lib dir slug \<in> unwritable fs"
  shows "save_market_to_csv lib fs slug activities dir
    = (Inl OSError, fs\<lparr>dirs := insert dir (dirs fs)\<rparr>)"
  using assms trades_nonempty[OF assms(1)]
  by (simp add: save_market_to_csv_def Let_def)

lemma save_row_error:
  assumes "30 \<le> trade_count activities" and "dir \<notin> unwritable fs"
    and "csv_path lib dir slug \<notin> unwritable fs"
    and "a \<in> set activities" and "csv_row lib a = Inl e"
  shows "\<exists>e'. fst (save_market_to_csv lib fs slug activities dir) = Inl e'"
proof -
  from write_rows_error[OF assms(4,5)] obtain e' c' where
    "write_rows lib (csv_line fieldnames) activities = (Some e', c')" by blast
  then show ?thesis
    using assms(1-3) trades_nonempty[OF assms(1)]
    by (simp add: save_market_to_csv_def Let_def)
qed

lemma datetime_cell_falsy: "\<not> truthy (get a ''timestamp'') \<Longrightarrow> datetime_cell lib a = Inr []"
  by (simp add: datetime_cell_def)

lemma get_default_truthy: "truthy (get a k) \<Longrightarrow> get_default a k d = get a k"
  by (auto simp: get_def get_default_def split: option.splits)

lemma datetime_cell_truthy:
  "truthy (get a ''timestamp'') \<Longrightarrow> datetime_cell lib a =
     (case py_int (get a ''timestamp'') of Inl e \<Rightarrow> Inl e | Inr n \<Rightarrow> utc_format lib n)"
  by (simp add: datetime_cell_def get_default_truthy)

lemma csv_row_cells:
  "datetime_cell lib a = Inr s
    \<Longrightarrow> \<exists>cells. csv_row lib a = Inr cells \<and> cells ! 1 = s \<and> length cells = 22"
  by (simp add: csv_row_def fieldnames_def)

lemma csv_row_error: "datetime_cell lib a = Inl e \<Longrightarrow> csv_row lib a = Inl e"
  by (simp add: csv_row_def)

lemma save_twice:
  "save_market_to_csv lib (snd (save_market_to_csv lib fs slug activities dir)) slug activities dir
     = save_market_to_csv lib fs slug activities dir"
  by (auto simp: save_market_to_csv_def Let_def insert_absorb split: prod.splits option.splits)

lemma save_ignores_old_content:
  "fst (save_market_to_csv lib fs slug activities dir) = Inr (Saved p)
    \<Longrightarrow> save_market_to_csv lib (fs\<lparr>files := (files fs)(p \<mapsto> old)\<rparr>) slug activities dir
        = save_market_to_csv lib fs slug activities dir"
  by (auto simp: save_market_to_csv_def Let_def split: prod.splits option.splits if_splits)

lemma save_saved_path:
  "fst (save_market_to_csv lib fs slug activities dir) = Inr (Saved p)
    \<Longrightarrow> p = csv_path lib dir slug
      \<and> files (snd (save_market_to_csv lib fs slug activities dir)) p
          = Some (snd (write_rows lib (csv_line fieldnames) activities))"
  by (auto simp: save_market_to_csv_def Let_def split: prod.splits option.splits if_splits)

lemma save_other_files:
  "p \<noteq> csv_path lib dir slug
    \<Longrightarrow> files (snd (save_market_to_csv lib fs slug activities dir)) p = files fs p"
  by (auto simp: save_market_to_csv_def Let_def split: prod.splits option.splits)

lemma save_unwritable_same:
  "unwritable (snd (save_market_to_csv lib fs slug activities dir)) = unwritable fs"
  by (auto simp: save_market_to_csv_def Let_def split: prod.splits option.splits)

lemma trade_count_replicate:
  "trade_count (replicate n a @ xs)
     = (if get a ''type'' = JStr ''TRADE'' then n else 0) + trade_count xs"
  by (simp add: trade_count_def)

lemma sample_cells:
  "datetime_cell sample_lib trade_1 = Inr ''2023-11-14 22:13:20''"
  "datetime_cell sample_lib split_a = Inr ''2023-11-14 22:13:20''"
  "datetime_cell sample_lib epoch_trade = Inr []"
  "datetime_cell sample_lib iso_trade = Inl ValueError"
  by code_simp+

lemma sample_types:
  "get trade_1 ''type'' = JStr ''TRADE''"
  "get split_a ''type'' = JStr ''SPLIT''"
  "get iso_trade ''type'' = JStr ''TRADE''"
  by code_simp+

lemma sample_path:
  "csv_path sample_lib ''/root/mcollect/data/w'' (JStr ''market-a'')
     = ''/root/mcollect/data/w/market-a.csv''"
  by code_simp

text \<open>
  Claim C4, as the code has it. A record whose \<open>timestamp\<close> is absent or falsy
  (\<open>None\<close>, 0, the empty string) gets the empty \<open>datetime\<close> cell and its row of 22
  cells is written. A truthy timestamp that \<open>int\<close> converts and the UTC formatting
  accepts gets the formatted text. A truthy timestamp that \<open>int\<close> refuses makes the
  row raise, and the save of a group that holds such a record ends with an error.
\<close>

theorem datetime_rendering:
  "(\<not> truthy (get a ''timestamp'') \<longrightarrow>
      datetime_cell lib a = Inr []
      \<and> (\<exists>cells. csv_row lib a = Inr cells \<and> cells ! 1 = [] \<and> length cells = 22))
   \<and> (truthy (get a ''timestamp'') \<and> py_int (get a ''timestamp'') = Inr n
        \<and> utc_format lib n = Inr s \<longrightarrow>
      datetime_cell lib a = Inr s
      \<and> (\<exists>cells. csv_row lib a = Inr cells \<and> cells ! 1 = s \<and> length cells = 22))
   \<and> (truthy (get a ''timestamp'') \<and> py_int (get a ''timestamp'') = Inl e \<longrightarrow>
      csv_row lib a = Inl e
      \<and> (a \<in> set activities \<and> 30 \<le> trade_count activities \<and> dir \<notin> unwritable fs
           \<and> csv_path lib dir slug \<notin> unwritable fs \<longrightarrow>
          (\<exists>e'. fst (save_market_to_csv lib fs slug activities dir) = Inl e')))"
proof -
  have falsy: "datetime_cell lib a = Inr []
      \<and> (\<exists>cells. csv_row lib a = Inr cells \<and> cells ! 1 = [] \<and> length cells = 22)"
    if "\<not> truthy (get a ''timestamp'')"
    using datetime_cell_falsy[OF that, of lib] csv_row_cells[of lib a "[]"] by simp
  have good: "datetime_cell lib a = Inr s
      \<and> (\<exists>cells. csv_row lib a = Inr cells \<and> cells ! 1 = s \<and> length cells = 22)"
    if "truthy (get a ''timestamp'')" "py_int (get a ''timestamp'') = Inr n"
      "utc_format lib n = Inr s"
  proof -
    have "datetime_cell lib a = Inr s"
      using that by (simp add: datetime_cell_truthy)
    then show ?thesis using csv_row_cells by blast
  qed
  have bad: "csv_row lib a = Inl e
      \<and> (a \<in> set activities \<and> 30 \<le> trade_count activities \<and> dir \<notin> unwritable fs
           \<and> csv_path lib dir slug \<notin> unwritable fs \<longrightarrow>
          (\<exists>e'. fst (save_market_to_csv lib fs slug activities dir) = Inl e'))"
    if "truthy (get a ''timestamp'')" "py_int (get a ''timestamp'') = Inl e"
  proof -
    have "datetime_cell lib a = Inl e"
      using that by (simp add: datetime_cell_truthy)
    then have row: "csv_row lib a = Inl e" by (rule csv_row_error)
    then show ?thesis using save_row_error by blast
  qed
  from falsy good bad show ?thesis by blast
qed

lemma sample_timestamps:
  "\<not> truthy (get epoch_trade ''timestamp'')"
  "truthy (get trade_1 ''timestamp'')"
  "py_int (get trade_1 ''timestamp'') = Inr 1700000000"
  "utc_format sample_lib 1700000000 = Inr ''2023-11-14 22:13:20''"
  "truthy (get iso_trade ''timestamp'')"
  "py_int (get iso_trade ''timestamp'') = Inl ValueError"
  by code_simp+

theorem datetime_rendering_witness:
  "datetime_cell sample_lib epoch_trade = Inr []
   \<and> datetime_cell sample_lib trade_1 = Inr ''2023-11-14 22:13:20''
   \<and> csv_row sample_lib iso_trade = Inl ValueError
   \<and> (\<exists>e'. fst (save_market_to_csv sample_lib empty_fs (JStr ''market-a'')
          (replicate 30 iso_trade) ''/root/mcollect/data/w'') = Inl e')"
proof -
  have c30: "30 \<le> trade_count (replicate 30 iso_trade)"
    using trade_count_replicate[of 30 iso_trade "[]"]
    by (simp add: sample_types trade_count_def)
  have w: "''/root/mcollect/data/w'' \<notin> unwritable empty_fs"
    "csv_path sample_lib ''/root/mcollect/data/w'' (JStr ''market-a'') \<notin> unwritable empty_fs"
    by (simp_all add: empty_fs_def)
  have m: "iso_trade \<in> set (replicate 30 iso_trade)" by simp
  from datetime_rendering [where a = epoch_trade and lib = sample_lib] sample_timestamps(1)
  have a: "datetime_cell sample_lib epoch_trade = Inr []" by blast
  from datetime_rendering [where a = trade_1 and n = 1700000000 and lib = sample_lib
      and s = "''2023-11-14 22:13:20''"]
    sample_timestamps(2,3,4)
  have b: "datetime_cell sample_lib trade_1 = Inr ''2023-11-14 22:13:20''" by blast
  from datetime_rendering [where a = iso_trade and lib = sample_lib and e = ValueError
      and activities = "replicate 30 iso_trade" and dir = "''/root/mcollect/data/w''"
      and fs = empty_fs and slug = "JStr ''market-a''"]
    sample_timestamps(5,6) c30 w m
  have c: "csv_row sample_lib iso_trade = Inl ValueError
      \<and> (\<exists>e'. fst (save_market_to_csv sample_lib empty_fs (JStr ''market-a'')
          (replicate 30 iso_trade) ''/root/mcollect/data/w'') = Inl e')" by blast
  from a b c show ?thesis by blast
qed

text \<open>
  The claim has the row written with an empty cell when the timestamp cannot be parsed,
  and the epoch timestamp formatted whenever it can. A group of thirty trades whose
  timestamp is an ISO date string is not saved: \<open>int\<close> raises \<open>ValueError\<close>, which
  nothing catches, and the file is left with its header alone. The timestamp 0 parses
  and formats as 1970-01-01 00:00:00, yet its cell is empty.
\<close>

theorem datetime_rendering_counterexample:
  "save_market_to_csv sample_lib empty_fs (JStr ''market-a'') (replicate 30 iso_trade)
      ''/root/mcollect/data/w''
     = (Inl ValueError,
        empty_fs\<lparr>dirs := {''/root/mcollect/data/w''},
           files := (files empty_fs)(''/root/mcollect/data/w/market-a.csv'' \<mapsto>
             csv_line fieldnames)\<rparr>)
   \<and> py_int (JInt 0) = Inr 0
   \<and> utc_format sample_lib 0 = Inr ''1970-01-01 00:00:00''
   \<and> datetime_cell sample_lib epoch_trade = Inr []"
proof -
  have c30: "trade_count (replicate 30 iso_trade) = 30"
    using trade_count_replicate[of 30 iso_trade "[]"]
    by (simp add: sample_types trade_count_def)
  have row: "csv_row sample_lib iso_trade = Inl ValueError"
    using sample_cells(4) by (rule csv_row_error)
  have wr: "write_rows sample_lib (csv_line fieldnames) (replicate 30 iso_trade)
      = (Some ValueError, csv_line fieldnames)"
    using row by (simp add: numeral_eq_Suc)
  have save: "save_market_to_csv sample_lib empty_fs (JStr ''market-a'') (replicate 30 iso_trade)
      ''/root/mcollect/data/w''
     = (Inl ValueError,
        empty_fs\<lparr>dirs := {''/root/mcollect/data/w''},
           files := (files empty_fs)(''/root/mcollect/data/w/market-a.csv'' \<mapsto>
             csv_line fieldnames)\<rparr>)"
    using c30 wr by (simp add: save_market_to_csv_def Let_def sample_path empty_fs_def)
  have z: "utc_format sample_lib 0 = Inr ''1970-01-01 00:00:00''" by code_simp
  from save z sample_cells(3) show ?thesis by simp
qed

text \<open>
  Claim C9. Saving a group again into the file system the first save left behind gives
  the same result and leaves that file system as it is. When the save returns a path,
  the file at that path holds exactly the rows written from the header on, and neither
  the result nor the final file system depends on what the file held before: the file
  is opened for writing, never for appending.
\<close>

theorem persist_overwrites:
  "save_market_to_csv lib (snd (save_market_to_csv lib fs slug activities dir)) slug activities dir
     = save_market_to_csv lib fs slug activities dir
   \<and> (fst (save_market_to_csv lib fs slug activities dir) = Inr (Saved p) \<longrightarrow>
        p = csv_path lib dir slug
        \<and> files (snd (save_market_to_csv lib fs slug activities dir)) p
            = Some (snd (write_rows lib (csv_line fieldnames) activities))
        \<and> save_market_to_csv lib (fs\<lparr>files := (files fs)(p \<mapsto> old)\<rparr>) slug activities dir
            = save_market_to_csv lib fs slug activities dir)"
  using save_twice[of lib fs slug activities dir]
    save_saved_path[of lib fs slug activities dir p]
    save_ignores_old_content[of lib fs slug activities dir p old]
  by blast

theorem persist_overwrites_witness:
  "fst (save_market_to_csv sample_lib empty_fs (JStr ''market-a'')
          (replicate 30 trade_1 @ [split_a]) ''/root/mcollect/data/w'')
     = Inr (Saved ''/root/mcollect/data/w/market-a.csv'')
   \<and> save_market_to_csv sample_lib
        (empty_fs\<lparr>files := (files empty_fs)(''/root/mcollect/data/w/market-a.csv'' \<mapsto> ''stale'')\<rparr>)
        (JStr ''market-a'') (replicate 30 trade_1 @ [split_a]) ''/root/mcollect/data/w''
     = save_market_to_csv sample_lib empty_fs (JStr ''market-a'')
        (replicate 30 trade_1 @ [split_a]) ''/root/mcollect/data/w''
   \<and> files (snd (save_market_to_csv sample_lib empty_fs (JStr ''market-a'')
          (replicate 30 trade_1 @ [split_a]) ''/root/mcollect/data/w''))
        ''/root/mcollect/data/w/market-a.csv''
     = Some (snd (write_rows sample_lib (csv_line fieldnames) (replicate 30 trade_1 @ [split_a])))"
proof -
  have c30: "30 \<le> trade_count (replicate 30 trade_1 @ [split_a])"
    by (simp add: trade_count_replicate sample_types)
  have rows: "\<And>a. a \<in> set (replicate 30 trade_1 @ [split_a])
      \<Longrightarrow> \<exists>r. csv_row sample_lib a = Inr r"
    using csv_row_cells[OF sample_cells(1)] csv_row_cells[OF sample_cells(2)] by auto
  have w: "''/root/mcollect/data/w'' \<notin> unwritable empty_fs"
    "csv_path sample_lib ''/root/mcollect/data/w'' (JStr ''market-a'') \<notin> unwritable empty_fs"
    by (simp_all add: empty_fs_def)
  have saved: "fst (save_market_to_csv sample_lib empty_fs (JStr ''market-a'')
          (replicate 30 trade_1 @ [split_a]) ''/root/mcollect/data/w'')
     = Inr (Saved ''/root/mcollect/data/w/market-a.csv'')"
    using save_written[OF c30 w rows] by (simp add: sample_path)
  from persist_overwrites [where lib = sample_lib and fs = empty_fs
      and slug = "JStr ''market-a''" and activities = "replicate 30 trade_1 @ [split_a]"
      and dir = "''/root/mcollect/data/w''" and p = "''/root/mcollect/data/w/market-a.csv''"
      and old = "''stale''"] saved
  show ?thesis by blast
qed

section \<open>Properties of the Pipeline Orchestrator\<close>

lemma save_loop_append:
  "save_loop lib dir s k fs (ms1 @ ms2) =
     (case save_loop lib dir s k fs ms1 of
        (Inl e, fs') \<Rightarrow> (Inl e, fs')
      | (Inr (s', k'), fs') \<Rightarrow> save_loop lib dir s' k' fs' ms2)"
proof (induction ms1 arbitrary: s k fs)
  case Nil
  show ?case by simp
next
  case (Cons m ms1)
  obtain slug acts where m: "m = (slug, acts)" by (cases m)
  show ?case
    unfolding m
    by (simp add: Cons.IH split: prod.splits sum.splits save_result.splits)
qed

lemma save_loop_fail_head:
  "save_market_to_csv lib fs slug acts dir = (Inl e, fs')
    \<Longrightarrow> save_loop lib dir s k fs ((slug, acts) # ms) = (Inl e, fs')"
  by simp

lemma save_loop_fail:
  assumes "save_loop lib dir s k fs before = (Inr (s1, k1), fs1)"
    and "save_market_to_csv lib fs1 slug acts dir = (Inl e, fs2)"
  shows "save_loop lib dir s k fs (before @ (slug, acts) # after) = (Inl e, fs2)"
  using assms by (simp add: save_loop_append)

lemma page_fetched:
  "get_all_user_activity two_markets 10000
     = (page_a @ page_b, [0])"
proof -
  have "fetch_loop two_markets 10000 [] 0 []
      = ([] @ (page_a @ page_b),
         [] @ [0])"
    by (rule fetch_loop_short) (simp_all add: two_markets_def page_a_def page_b_def)
  then show ?thesis by (simp add: get_all_user_activity_def)
qed

lemma page_unique:
  "remove_duplicates (page_a @ page_b)
     = Inr (page_a @ page_b)"
  by code_simp

lemma page_grouped:
  "group_by_market (page_a @ page_b)
     = Inr [(JStr ''market-a'', page_a),
            (JStr ''market-b'', page_b)]"
  by code_simp

lemma page_counts:
  "trade_count (page_a) = 30"
  "trade_count (page_b) = 30"
  by code_simp+

lemma wallet_dir: "path_join OUTPUT_ROOT ''w'' = ''/root/mcollect/data/w''"
  by code_simp

lemma market_paths:
  "csv_path sample_lib ''/root/mcollect/data/w'' (JStr ''market-a'')
     = ''/root/mcollect/data/w/market-a.csv''"
  "csv_path sample_lib ''/root/mcollect/data/w'' (JStr ''market-b'')
     = ''/root/mcollect/data/w/market-b.csv''"
  by code_simp+

lemma locked_run:
  "process_wallet sample_lib two_markets locked_fs ''w'' 10000
     = (Inl OSError, locked_fs\<lparr>dirs := {''/root/mcollect/data/w''}\<rparr>)"
proof -
  have first: "save_market_to_csv sample_lib locked_fs (JStr ''market-a'')
        (page_a) ''/root/mcollect/data/w''
      = (Inl OSError, locked_fs\<lparr>dirs := insert ''/root/mcollect/data/w'' (dirs locked_fs)\<rparr>)"
    by (rule save_unwritable) (simp_all add: page_counts market_paths locked_fs_def)
  have loop: "save_loop sample_lib ''/root/mcollect/data/w'' 0 [] locked_fs
        [(JStr ''market-a'', page_a),
         (JStr ''market-b'', page_b)]
      = (Inl OSError, locked_fs\<lparr>dirs := insert ''/root/mcollect/data/w'' (dirs locked_fs)\<rparr>)"
    using first by (rule save_loop_fail_head)
  have ne: "page_a @ page_b \<noteq> []"
    by (simp add: page_b_def)
  show ?thesis
    unfolding process_wallet_def page_fetched
    using ne loop by (simp add: page_unique page_grouped wallet_dir locked_fs_def)
qed

lemma mk_trade_row: "i < 100 \<Longrightarrow> \<exists>r. csv_row sample_lib (mk_trade s i) = Inr r"
proof -
  assume i: "i < 100"
  have ts: "get (mk_trade s i) ''timestamp'' = JInt (1700000000 + int i)"
    by (simp add: mk_trade_def get_def)
  have "datetime_cell sample_lib (mk_trade s i) = Inr (clock_text (1700000000 + int i))"
    using i by (simp add: datetime_cell_truthy ts sample_lib_def)
  from csv_row_cells[OF this] show ?thesis by blast
qed

lemma page_rows:
  "a \<in> set page_a \<Longrightarrow> \<exists>r. csv_row sample_lib a = Inr r"
  "a \<in> set page_b \<Longrightarrow> \<exists>r. csv_row sample_lib a = Inr r"
  by (auto simp: page_a_def page_b_def intro!: mk_trade_row)

lemma free_run:
  "fst (process_wallet sample_lib two_markets empty_fs ''w'' 10000) = Inr (Summary 2 [])"
  "files (snd (process_wallet sample_lib two_markets empty_fs ''w'' 10000))
      ''/root/mcollect/data/w/market-b.csv'' = Some (csv_text sample_lib page_b)"
proof -
  let ?dir = "''/root/mcollect/data/w''"
  let ?fs1 = "empty_fs\<lparr>dirs := insert ?dir (dirs empty_fs),
      files := (files empty_fs)(''/root/mcollect/data/w/market-a.csv'' \<mapsto>
        csv_text sample_lib page_a)\<rparr>"
  let ?fs2 = "?fs1\<lparr>dirs := insert ?dir (dirs ?fs1),
      files := (files ?fs1)(''/root/mcollect/data/w/market-b.csv'' \<mapsto>
        csv_text sample_lib page_b)\<rparr>"
  have first: "save_market_to_csv sample_lib empty_fs (JStr ''market-a'') page_a ?dir
      = (Inr (Saved ''/root/mcollect/data/w/market-a.csv''), ?fs1)"
    using save_written[of page_a ?dir empty_fs sample_lib "JStr ''market-a''"] page_rows(1)
    by (simp add: page_counts market_paths empty_fs_def)
  have second: "save_market_to_csv sample_lib ?fs1 (JStr ''market-b'') page_b ?dir
      = (Inr (Saved ''/root/mcollect/data/w/market-b.csv''), ?fs2)"
    using save_written[of page_b ?dir ?fs1 sample_lib "JStr ''market-b''"] page_rows(2)
    by (simp add: page_counts market_paths empty_fs_def)
  have loop: "save_loop sample_lib ?dir 0 [] empty_fs
        [(JStr ''market-a'', page_a), (JStr ''market-b'', page_b)]
      = (Inr (2, []), ?fs2)"
    by (simp add: first second)
  have ne: "page_a @ page_b \<noteq> []" by (simp add: page_b_def)
  have run: "process_wallet sample_lib two_markets empty_fs ''w'' 10000
      = (Inr (Summary 2 []), ?fs2)"
    unfolding process_wallet_def page_fetched
    using ne loop by (simp add: page_unique page_grouped wallet_dir)
  show "fst (process_wallet sample_lib two_markets empty_fs ''w'' 10000) = Inr (Summary 2 [])"
    unfolding run by simp
  show "files (snd (process_wallet sample_lib two_markets empty_fs ''w'' 10000))
      ''/root/mcollect/data/w/market-b.csv'' = Some (csv_text sample_lib page_b)"
    unfolding run by simp
qed

text \<open>
  Claim C2, as the code has it. Nothing in \<open>process_wallet\<close> catches what
  \<open>save_market_to_csv\<close> raises. When the groups before one have been handled and the
  save of that group fails, the loop ends with that error whatever groups follow: they
  are not handled. The failed save touches no file but its own, so what the earlier
  groups wrote stays, and the whole run of the wallet ends with the error.
\<close>

theorem write_failure_ends_run:
  assumes "save_loop lib dir saved skipped fs before = (Inr (saved1, skipped1), fs1)"
    and "save_market_to_csv lib fs1 slug acts dir = (Inl e, fs2)"
  shows "save_loop lib dir saved skipped fs (before @ (slug, acts) # after) = (Inl e, fs2)
    \<and> (\<forall>p. p \<noteq> csv_path lib dir slug \<longrightarrow> files fs2 p = files fs1 p)
    \<and> (fst (get_all_user_activity src max_records) \<noteq> []
        \<and> remove_duplicates (fst (get_all_user_activity src max_records)) = Inr unique
        \<and> group_by_market unique = Inr (before @ (slug, acts) # after)
        \<and> dir = path_join OUTPUT_ROOT wallet_name \<and> saved = 0 \<and> skipped = [] \<longrightarrow>
        process_wallet lib src fs wallet_name max_records = (Inl e, fs2))"
proof -
  have loop: "save_loop lib dir saved skipped fs (before @ (slug, acts) # after) = (Inl e, fs2)"
    using assms by (rule save_loop_fail)
  have others: "files fs2 p = files fs1 p" if "p \<noteq> csv_path lib dir slug" for p
    using save_other_files[OF that, of fs1 acts] assms(2) by simp
  have run: "process_wallet lib src fs wallet_name max_records = (Inl e, fs2)"
    if "fst (get_all_user_activity src max_records) \<noteq> []"
      "remove_duplicates (fst (get_all_user_activity src max_records)) = Inr unique"
      "group_by_market unique = Inr (before @ (slug, acts) # after)"
      "dir = path_join OUTPUT_ROOT wallet_name" "saved = 0" "skipped = []"
    using that loop by (simp add: process_wallet_def)
  from loop others run show ?thesis by blast
qed

theorem write_failure_ends_run_witness:
  "save_loop sample_lib ''/root/mcollect/data/w'' 0 [] locked_fs
      [(JStr ''market-a'', page_a), (JStr ''market-b'', page_b)]
     = (Inl OSError, locked_fs\<lparr>dirs := {''/root/mcollect/data/w''}\<rparr>)
   \<and> process_wallet sample_lib two_markets locked_fs ''w'' 10000
     = (Inl OSError, locked_fs\<lparr>dirs := {''/root/mcollect/data/w''}\<rparr>)"
proof -
  have before: "save_loop sample_lib ''/root/mcollect/data/w'' 0 [] locked_fs []
      = (Inr (0, []), locked_fs)"
    by simp
  have first: "save_market_to_csv sample_lib locked_fs (JStr ''market-a'') page_a
        ''/root/mcollect/data/w''
      = (Inl OSError, locked_fs\<lparr>dirs := {''/root/mcollect/data/w''}\<rparr>)"
    using save_unwritable[of page_a "''/root/mcollect/data/w''" locked_fs sample_lib
        "JStr ''market-a''"]
    by (simp add: page_counts market_paths locked_fs_def)
  have fetched: "fst (get_all_user_activity two_markets 10000) = page_a @ page_b"
    by (simp add: page_fetched)
  have ne: "page_a @ page_b \<noteq> []" by (simp add: page_b_def)
  from write_failure_ends_run [OF before first,
      where after = "[(JStr ''market-b'', page_b)]" and src = two_markets
        and max_records = 10000 and unique = "page_a @ page_b" and wallet_name = "''w''"]
    fetched ne page_unique page_grouped wallet_dir
  show ?thesis by simp
qed

text \<open>
  The claim has the other groups handled after a write failure. A wallet with thirty
  trades in each of two markets, on a file system that refuses the file of the first
  market: the run ends with \<open>OSError\<close> and no file is written for the second market;
  on a file system that refuses nothing the same run saves both.
\<close>

theorem write_failure_ends_run_counterexample:
  "group_by_market (fst (get_all_user_activity two_markets 10000))
     = Inr [(JStr ''market-a'', page_a), (JStr ''market-b'', page_b)]
   \<and> trade_count page_b = 30
   \<and> fst (process_wallet sample_lib two_markets locked_fs ''w'' 10000) = Inl OSError
   \<and> files (snd (process_wallet sample_lib two_markets locked_fs ''w'' 10000))
        ''/root/mcollect/data/w/market-b.csv'' = None
   \<and> fst (process_wallet sample_lib two_markets empty_fs ''w'' 10000) = Inr (Summary 2 [])
   \<and> files (snd (process_wallet sample_lib two_markets empty_fs ''w'' 10000))
        ''/root/mcollect/data/w/market-b.csv'' = Some (csv_text sample_lib page_b)"
proof -
  have g: "group_by_market (fst (get_all_user_activity two_markets 10000))
     = Inr [(JStr ''market-a'', page_a), (JStr ''market-b'', page_b)]"
    by (simp add: page_fetched page_grouped)
  have l: "fst (process_wallet sample_lib two_markets locked_fs ''w'' 10000) = Inl OSError"
    "files (snd (process_wallet sample_lib two_markets locked_fs ''w'' 10000))
        ''/root/mcollect/data/w/market-b.csv'' = None"
    unfolding locked_run by (simp_all add: locked_fs_def)
  from g page_counts(2) l free_run show ?thesis by simp
qed

section \<open>The materiality threshold\<close>

lemma csv_row_explicit:
  "datetime_cell lib a = Inr s \<Longrightarrow> csv_row lib a =
     Inr (csv_cell lib (get_default a ''timestamp'' (JStr [])) # s #
          map (\<lambda>name. csv_cell lib (get_default a name (JStr []))) (drop 2 fieldnames))"
  by (simp add: csv_row_def)

lemma join_comma_contains:
  "s \<in> set ss \<Longrightarrow> \<exists>pre post. join_comma ss = pre @ s @ post"
proof (induction ss rule: join_comma.induct)
  case 1
  then show ?case by simp
next
  case (2 t)
  then have "join_comma [t] = [] @ s @ []" by simp
  then show ?case by blast
next
  case (3 t u us)
  show ?case
  proof (cases "s = t")
    case True
    then have "join_comma (t # u # us) = [] @ s @ (CHR '','' # join_comma (u # us))" by simp
    then show ?thesis by blast
  next
    case False
    with "3.prems" have "s \<in> set (u # us)" by simp
    from "3.IH"[OF this] obtain pre post where "join_comma (u # us) = pre @ s @ post" by blast
    then have "join_comma (t # u # us) = (t @ CHR '','' # pre) @ s @ post" by simp
    then show ?thesis by blast
  qed
qed

lemma csv_line_contains:
  assumes "c \<in> set cells"
  shows "\<exists>pre post. csv_line cells = pre @ csv_field c @ post"
proof -
  have "csv_field c \<in> set (map csv_field cells)" using assms by simp
  from join_comma_contains[OF this] obtain pre post where
    "join_comma (map csv_field cells) = pre @ csv_field c @ post" by blast
  then have "csv_line cells = pre @ csv_field c @ (post @ [CHR 0x0D, CHR 0x0A])"
    by (simp add: csv_line_def)
  then show ?thesis by blast
qed

lemma concat_map_contains:
  assumes "a \<in> set xs"
  shows "\<exists>pre post. concat (map f xs) = pre @ f a @ post"
proof -
  from assms obtain ys zs where "xs = ys @ a # zs" by (auto dest: split_list)
  then have "concat (map f xs) = concat (map f ys) @ f a @ concat (map f zs)" by simp
  then show ?thesis by blast
qed

lemma show_ts: "show_int 1700000000 = ''1700000000''"
  by (simp add: show_int_def show_nat.simps digit_char_def)

lemma header_line:
  "csv_line fieldnames =
     ''timestamp,datetime,type,side,proxyWallet,conditionId,asset,outcomeIndex,outcome,size,usdcSize,price,transactionHash,title,slug,eventSlug,icon,name,pseudonym,bio,profileImage,profileImageOptimized''
     @ [CHR 0x0D, CHR 0x0A]"
  by code_simp

lemma trade_1_row:
  "csv_row sample_lib trade_1 =
     Inr [''1700000000'', ''2023-11-14 22:13:20'', ''TRADE'', ''BUY'', [], [], [], [], [], [], [], [],
          ''0xaa'', [], ''market-a'', [], [], [], [], [], [], []]"
  using csv_row_explicit[OF sample_cells(1)]
  by (simp add: csv_cell_def get_default_def trade_1_def fieldnames_def show_ts)

lemma trade_1_line:
  "csv_line [''1700000000'', ''2023-11-14 22:13:20'', ''TRADE'', ''BUY'', [], [], [], [], [], [], [], [],
          ''0xaa'', [], ''market-a'', [], [], [], [], [], [], []]
     = ''1700000000,2023-11-14 22:13:20,TRADE,BUY,,,,,,,,,0xaa,,market-a,,,,,,,'' @ [CHR 0x0D, CHR 0x0A]"
  by code_simp

lemma split_a_row:
  "csv_row sample_lib split_a =
     Inr [''1700000000'', ''2023-11-14 22:13:20'', ''SPLIT'', [], [], [], [], [], [], [], [], [],
          [], [], ''market-a'', [], [], [], [], [], [], []]"
  using csv_row_explicit[OF sample_cells(2)]
  by (simp add: csv_cell_def get_default_def split_a_def fieldnames_def show_ts)

lemma split_a_line:
  "csv_line [''1700000000'', ''2023-11-14 22:13:20'', ''SPLIT'', [], [], [], [], [], [], [], [], [],
          [], [], ''market-a'', [], [], [], [], [], [], []]
     = ''1700000000,2023-11-14 22:13:20,SPLIT,,,,,,,,,,,,market-a,,,,,,,'' @ [CHR 0x0D, CHR 0x0A]"
  by code_simp

text \<open>
  Claim C5, as the code has it. For a non-empty group the gate counts the records whose
  \<open>type\<close> is \<open>TRADE\<close>. With at most 29 of them the group is reported as skipped with
  that count and the file system is left as it was. With at least 30, a destination
  that can be written and a \<open>datetime\<close> cell that renders for every record, the file
  of the group is written: the header line, then for every record of the group,
  whatever its type and in group order, the line of its 22 cells, the cell of a column
  being the field of that name; the text of every such cell is in the file.
\<close>

theorem materiality_threshold:
  assumes "activities \<noteq> []"
  shows "(trade_count activities \<le> 29 \<longrightarrow>
            save_market_to_csv lib fs slug activities dir
              = (Inr (Skipped slug (trade_count activities)), fs))
       \<and> (30 \<le> trade_count activities \<and> dir \<notin> unwritable fs
            \<and> csv_path lib dir slug \<notin> unwritable fs
            \<and> (\<forall>a\<in>set activities. \<exists>s. datetime_cell lib a = Inr s) \<longrightarrow>
            (\<exists>content.
               save_market_to_csv lib fs slug activities dir
                 = (Inr (Saved (csv_path lib dir slug)),
                    fs\<lparr>dirs := insert dir (dirs fs),
                       files := (files fs)(csv_path lib dir slug \<mapsto> content)\<rparr>)
               \<and> content = csv_line fieldnames @ concat (map (\<lambda>a. csv_line
                     (csv_cell lib (get_default a ''timestamp'' (JStr []))
                      # projr (datetime_cell lib a)
                      # map (\<lambda>name. csv_cell lib (get_default a name (JStr [])))
                          (drop 2 fieldnames))) activities)
               \<and> (\<forall>a\<in>set activities. \<forall>name\<in>set fieldnames. name \<noteq> ''datetime'' \<longrightarrow>
                    (\<exists>pre post. content
                       = pre @ csv_field (csv_cell lib (get_default a name (JStr []))) @ post))))"
proof -
  let ?cells = "\<lambda>a. csv_cell lib (get_default a ''timestamp'' (JStr []))
      # projr (datetime_cell lib a)
      # map (\<lambda>name. csv_cell lib (get_default a name (JStr []))) (drop 2 fieldnames)"
  let ?content = "csv_line fieldnames @ concat (map (\<lambda>a. csv_line (?cells a)) activities)"
  have skip: "save_market_to_csv lib fs slug activities dir
      = (Inr (Skipped slug (trade_count activities)), fs)"
    if "trade_count activities \<le> 29"
    by (rule save_skipped) (use assms that in auto)
  have written: "\<exists>content.
      save_market_to_csv lib fs slug activities dir
        = (Inr (Saved (csv_path lib dir slug)),
           fs\<lparr>dirs := insert dir (dirs fs),
              files := (files fs)(csv_path lib dir slug \<mapsto> content)\<rparr>)
      \<and> content = ?content
      \<and> (\<forall>a\<in>set activities. \<forall>name\<in>set fieldnames. name \<noteq> ''datetime'' \<longrightarrow>
            (\<exists>pre post. content
               = pre @ csv_field (csv_cell lib (get_default a name (JStr []))) @ post))"
    if c: "30 \<le> trade_count activities" and d: "dir \<notin> unwritable fs"
      and p: "csv_path lib dir slug \<notin> unwritable fs"
      and r: "\<forall>a\<in>set activities. \<exists>s. datetime_cell lib a = Inr s"
  proof -
    have row: "csv_row lib a = Inr (?cells a)" if "a \<in> set activities" for a
    proof -
      from r that obtain s where s: "datetime_cell lib a = Inr s" by blast
      from csv_row_explicit[OF s] s show ?thesis by simp
    qed
    then have rows: "\<And>a. a \<in> set activities \<Longrightarrow> \<exists>r. csv_row lib a = Inr r" by blast
    have same: "map (\<lambda>a. csv_line (projr (csv_row lib a))) activities
        = map (\<lambda>a. csv_line (?cells a)) activities"
      by (rule map_cong) (simp_all add: row)
    have save: "save_market_to_csv lib fs slug activities dir
        = (Inr (Saved (csv_path lib dir slug)),
           fs\<lparr>dirs := insert dir (dirs fs),
              files := (files fs)(csv_path lib dir slug \<mapsto> ?content)\<rparr>)"
      using save_written[OF c d p rows] unfolding csv_text_def same .
    have inside: "\<exists>pre post. ?content
        = pre @ csv_field (csv_cell lib (get_default a name (JStr []))) @ post"
      if a: "a \<in> set activities" and n: "name \<in> set fieldnames" and nd: "name \<noteq> ''datetime''"
      for a name
    proof -
      have "name = ''timestamp'' \<or> name \<in> set (drop 2 fieldnames)"
        using n nd by (auto simp: fieldnames_def)
      then have "csv_cell lib (get_default a name (JStr [])) \<in> set (?cells a)" by auto
      from csv_line_contains[OF this] obtain p1 q1 where
        l: "csv_line (?cells a)
            = p1 @ csv_field (csv_cell lib (get_default a name (JStr []))) @ q1" by blast
      from concat_map_contains[OF a, of "\<lambda>a. csv_line (?cells a)"] obtain p2 q2 where
        "concat (map (\<lambda>a. csv_line (?cells a)) activities) = p2 @ csv_line (?cells a) @ q2"
        by blast
      then have "?content = (csv_line fieldnames @ p2 @ p1)
          @ csv_field (csv_cell lib (get_default a name (JStr []))) @ (q1 @ q2)"
        unfolding l by simp
      then show ?thesis by blast
    qed
    from save inside show ?thesis by blast
  qed
  from skip written show ?thesis by blast
qed

theorem materiality_threshold_witness:
  "save_market_to_csv sample_lib empty_fs (JStr ''market-a'') (replicate 29 trade_1 @ [split_a])
      ''/root/mcollect/data/w''
     = (Inr (Skipped (JStr ''market-a'') 29), empty_fs)
   \<and> save_market_to_csv sample_lib empty_fs (JStr ''market-a'')
        (replicate 30 trade_1 @ [split_a]) ''/root/mcollect/data/w''
     = (Inr (Saved ''/root/mcollect/data/w/market-a.csv''),
        empty_fs\<lparr>dirs := {''/root/mcollect/data/w''},
          files := (files empty_fs)(''/root/mcollect/data/w/market-a.csv'' \<mapsto>
            ''timestamp,datetime,type,side,proxyWallet,conditionId,asset,outcomeIndex,outcome,size,usdcSize,price,transactionHash,title,slug,eventSlug,icon,name,pseudonym,bio,profileImage,profileImageOptimized''
            @ [CHR 0x0D, CHR 0x0A]
            @ concat (replicate 30
                (''1700000000,2023-11-14 22:13:20,TRADE,BUY,,,,,,,,,0xaa,,market-a,,,,,,,''
                 @ [CHR 0x0D, CHR 0x0A]))
            @ ''1700000000,2023-11-14 22:13:20,SPLIT,,,,,,,,,,,,market-a,,,,,,,''
            @ [CHR 0x0D, CHR 0x0A])\<rparr>)"
proof -
  let ?dir = "''/root/mcollect/data/w''"
  have c29: "trade_count (replicate 29 trade_1 @ [split_a]) = 29"
    and c30: "trade_count (replicate 30 trade_1 @ [split_a]) = 30"
    by (simp_all add: trade_count_replicate sample_types) (simp_all add: trade_count_def sample_types)
  have dt: "\<forall>a\<in>set (replicate 30 trade_1 @ [split_a]). \<exists>s. datetime_cell sample_lib a = Inr s"
    using sample_cells(1,2) by auto
  have w: "?dir \<notin> unwritable empty_fs"
    "''/root/mcollect/data/w/market-a.csv'' \<notin> unwritable empty_fs"
    by (simp_all add: empty_fs_def)
  have t: "csv_line (csv_cell sample_lib (get_default trade_1 ''timestamp'' (JStr []))
        # projr (datetime_cell sample_lib trade_1)
        # map (\<lambda>name. csv_cell sample_lib (get_default trade_1 name (JStr [])))
            (drop 2 fieldnames))
      = ''1700000000,2023-11-14 22:13:20,TRADE,BUY,,,,,,,,,0xaa,,market-a,,,,,,,''
        @ [CHR 0x0D, CHR 0x0A]"
    using csv_row_explicit[OF sample_cells(1)] trade_1_row trade_1_line
    by (simp add: sample_cells(1))
  have s: "csv_line (csv_cell sample_lib (get_default split_a ''timestamp'' (JStr []))
        # projr (datetime_cell sample_lib split_a)
        # map (\<lambda>name. csv_cell sample_lib (get_default split_a name (JStr [])))
            (drop 2 fieldnames))
      = ''1700000000,2023-11-14 22:13:20,SPLIT,,,,,,,,,,,,market-a,,,,,,,''
        @ [CHR 0x0D, CHR 0x0A]"
    using csv_row_explicit[OF sample_cells(2)] split_a_row split_a_line
    by (simp add: sample_cells(2))
  from materiality_threshold [where activities = "replicate 29 trade_1 @ [split_a]"
      and lib = sample_lib and fs = empty_fs and slug = "JStr ''market-a''" and dir = ?dir] c29
  have a: "save_market_to_csv sample_lib empty_fs (JStr ''market-a'')
      (replicate 29 trade_1 @ [split_a]) ?dir
     = (Inr (Skipped (JStr ''market-a'') 29), empty_fs)"
    by simp
  from materiality_threshold [where activities = "replicate 30 trade_1 @ [split_a]"
      and lib = sample_lib and fs = empty_fs and slug = "JStr ''market-a''" and dir = ?dir]
    c30 dt w
  obtain content where
    sv: "save_market_to_csv sample_lib empty_fs (JStr ''market-a'')
        (replicate 30 trade_1 @ [split_a]) ?dir
      = (Inr (Saved (csv_path sample_lib ?dir (JStr ''market-a''))),
         empty_fs\<lparr>dirs := insert ?dir (dirs empty_fs),
            files := (files empty_fs)(csv_path sample_lib ?dir (JStr ''market-a'') \<mapsto> content)\<rparr>)"
    and ct: "content = csv_line fieldnames @ concat (map (\<lambda>a. csv_line
          (csv_cell sample_lib (get_default a ''timestamp'' (JStr []))
           # projr (datetime_cell sample_lib a)
           # map (\<lambda>name. csv_cell sample_lib (get_default a name (JStr [])))
               (drop 2 fieldnames))) (replicate 30 trade_1 @ [split_a]))"
    by (auto simp: sample_path)
  have ct': "content =
      ''timestamp,datetime,type,side,proxyWallet,conditionId,asset,outcomeIndex,outcome,size,usdcSize,price,transactionHash,title,slug,eventSlug,icon,name,pseudonym,bio,profileImage,profileImageOptimized''
      @ [CHR 0x0D, CHR 0x0A]
      @ concat (replicate 30
          (''1700000000,2023-11-14 22:13:20,TRADE,BUY,,,,,,,,,0xaa,,market-a,,,,,,,''
           @ [CHR 0x0D, CHR 0x0A]))
      @ ''1700000000,2023-11-14 22:13:20,SPLIT,,,,,,,,,,,,market-a,,,,,,,''
      @ [CHR 0x0D, CHR 0x0A]"
    unfolding ct map_append map_replicate list.map concat_append t s header_line by simp
  have b: "save_market_to_csv sample_lib empty_fs (JStr ''market-a'')
        (replicate 30 trade_1 @ [split_a]) ?dir
      = (Inr (Saved ''/root/mcollect/data/w/market-a.csv''),
         empty_fs\<lparr>dirs := {?dir},
            files := (files empty_fs)(''/root/mcollect/data/w/market-a.csv'' \<mapsto> content)\<rparr>)"
    using sv by (simp add: sample_path empty_fs_def)
  show ?thesis unfolding a b ct' by simp
qed

text \<open>
  The claim has a file with every record of the group whenever the group has at least
  30 trades. A group of thirty trades of which all but the first carry an ISO date
  string as timestamp: the save raises \<open>ValueError\<close> and the file holds the header and
  the first record only. A group of thirty trades whose file cannot be opened: the save
  raises \<open>OSError\<close> and there is no file.
\<close>

theorem materiality_threshold_counterexample:
  "trade_count (trade_1 # replicate 29 iso_trade) = 30
   \<and> save_market_to_csv sample_lib empty_fs (JStr ''market-a'')
        (trade_1 # replicate 29 iso_trade) ''/root/mcollect/data/w''
     = (Inl ValueError,
        empty_fs\<lparr>dirs := {''/root/mcollect/data/w''},
          files := (files empty_fs)(''/root/mcollect/data/w/market-a.csv'' \<mapsto>
            ''timestamp,datetime,type,side,proxyWallet,conditionId,asset,outcomeIndex,outcome,size,usdcSize,price,transactionHash,title,slug,eventSlug,icon,name,pseudonym,bio,profileImage,profileImageOptimized''
            @ [CHR 0x0D, CHR 0x0A]
            @ ''1700000000,2023-11-14 22:13:20,TRADE,BUY,,,,,,,,,0xaa,,market-a,,,,,,,''
            @ [CHR 0x0D, CHR 0x0A])\<rparr>)
   \<and> trade_count page_a = 30
   \<and> save_market_to_csv sample_lib locked_fs (JStr ''market-a'') page_a ''/root/mcollect/data/w''
     = (Inl OSError, locked_fs\<lparr>dirs := {''/root/mcollect/data/w''}\<rparr>)
   \<and> files (locked_fs\<lparr>dirs := {''/root/mcollect/data/w''}\<rparr>)
        ''/root/mcollect/data/w/market-a.csv'' = None"
proof -
  have c30: "trade_count (trade_1 # replicate 29 iso_trade) = 30"
    using trade_count_replicate[of 29 iso_trade "[]"]
    by (simp add: sample_types trade_count_def)
  have bad: "csv_row sample_lib iso_trade = Inl ValueError"
    using sample_cells(4) by (rule csv_row_error)
  have wr: "write_rows sample_lib (csv_line fieldnames) (trade_1 # replicate 29 iso_trade)
      = (Some ValueError,
         csv_line fieldnames @ csv_line [''1700000000'', ''2023-11-14 22:13:20'', ''TRADE'',
           ''BUY'', [], [], [], [], [], [], [], [], ''0xaa'', [], ''market-a'',
           [], [], [], [], [], [], []])"
    using bad trade_1_row by (simp add: numeral_eq_Suc)
  have ne: "trade_1 # replicate 29 iso_trade \<noteq> []" by simp
  have save: "save_market_to_csv sample_lib empty_fs (JStr ''market-a'')
        (trade_1 # replicate 29 iso_trade) ''/root/mcollect/data/w''
     = (Inl ValueError,
        empty_fs\<lparr>dirs := {''/root/mcollect/data/w''},
          files := (files empty_fs)(''/root/mcollect/data/w/market-a.csv'' \<mapsto>
            csv_line fieldnames @ csv_line [''1700000000'', ''2023-11-14 22:13:20'', ''TRADE'',
              ''BUY'', [], [], [], [], [], [], [], [], ''0xaa'', [], ''market-a'',
              [], [], [], [], [], [], []])\<rparr>)"
    unfolding save_market_to_csv_def Let_def wr
    using c30 by (simp add: sample_path empty_fs_def)
  have locked: "save_market_to_csv sample_lib locked_fs (JStr ''market-a'') page_a
        ''/root/mcollect/data/w''
     = (Inl OSError, locked_fs\<lparr>dirs := {''/root/mcollect/data/w''}\<rparr>)"
    using save_unwritable[of page_a "''/root/mcollect/data/w''" locked_fs sample_lib
        "JStr ''market-a''"]
    by (simp add: page_counts market_paths locked_fs_def)
  have nofile: "files (locked_fs\<lparr>dirs := {''/root/mcollect/data/w''}\<rparr>)
        ''/root/mcollect/data/w/market-a.csv'' = None"
    by (simp add: locked_fs_def)
  show ?thesis
    unfolding save header_line trade_1_line
    using c30 page_counts(1) locked nofile by simp
qed

end
